theory Spec2Isabelle
  imports Main "HOL-Library.Word"
begin

unbundle bit_operations_syntax

section \<open>Data model of gralloc\_drm.c\<close>

text \<open>
  C \<open>int\<close> and \<open>unsigned int\<close> are 32-bit words: \<open>+\<close> and \<open>-\<close> wrap, \<open>AND\<close>/\<open>OR\<close> are
  bitwise, and a C truth test \<open>if (x)\<close> is \<open>x \<noteq> 0\<close>.  A pointer is an address; address
  \<open>0\<close> is \<open>NULL\<close>.  Objects live in stores (partial maps from addresses); storage that has
  been released is absent from its store.  Reading or writing through \<open>NULL\<close> or through an
  address that is absent from the store is a fault, returned as a value.
\<close>

type_synonym cint = "32 word"
type_synonym ptr = nat

datatype fault = NullDeref | DanglingDeref

text \<open>
  Constants of headers that are not part of gralloc\_drm.c (the handle header's magic and
  field counts, the platform's usage flags and \<open>errno\<close>) are parameters of the model.
\<close>

text \<open>
  Modelled from the spec: \<open>planes_for_format\<close> (defined in the display code, not among
  the sources) gives "a derived plane layout computed from the format"; it is a parameter
  with the constants, a function of the format.
\<close>

record gralloc_consts =
  sizeof_native_handle :: cint
  GRALLOC_DRM_HANDLE_NUM_INTS :: cint
  GRALLOC_DRM_HANDLE_NUM_FDS :: cint
  GRALLOC_DRM_HANDLE_MAGIC :: cint
  GRALLOC_USAGE_SW_READ_MASK :: cint
  GRALLOC_USAGE_SW_WRITE_MASK :: cint
  GRALLOC_USAGE_SW_READ_OFTEN :: cint
  GRALLOC_USAGE_HW_FB :: cint
  GRALLOC_USAGE_HW_TEXTURE :: cint
  GRALLOC_USAGE_HW_VIDEO_ENCODER :: cint
  EINVAL :: cint
  planes_for_format :: "cint \<Rightarrow> cint"

text \<open>\<open>struct gralloc_drm_handle_t\<close>: the fields gralloc\_drm.c reads or writes.\<close>

record gralloc_drm_handle_t =
  base_version :: cint
  base_numFds :: cint
  base_numInts :: cint
  prime_fd :: cint
  magic :: cint
  width :: cint
  height :: cint
  format :: cint
  usage :: cint
  plane_mask :: cint
  name :: cint
  stride :: cint
  data_owner :: cint
  data :: ptr

text \<open>\<open>struct gralloc_drm_bo_t\<close>: the fields gralloc\_drm.c reads or writes.\<close>

record gralloc_drm_bo_t =
  drm :: ptr
  handle :: ptr
  imported :: cint
  fb_id :: cint
  lock_count :: cint
  locked_for :: cint
  refcount :: cint

text \<open>
  \<open>struct gralloc_drm_drv_t\<close>, the allocation backend.  Its behaviour is a parameter:
  \<open>drv_alloc\<close> decides from the handle whether an object is produced, and gives the new
  object's initial contents and the handle as the backend leaves it; \<open>drv_map\<close> gives the
  error code and the mapped address; \<open>drv_resolve_format\<close> is the optional capability
  (\<open>None\<close> is the null function pointer) and gives pitches, offsets and handles.
\<close>

record gralloc_drm_drv_t =
  drv_alloc :: "gralloc_drm_handle_t \<Rightarrow> (gralloc_drm_bo_t \<times> gralloc_drm_handle_t) option"
  drv_map :: "gralloc_drm_bo_t \<Rightarrow> cint \<Rightarrow> cint \<Rightarrow> cint \<Rightarrow> cint \<Rightarrow> cint \<Rightarrow> cint \<times> ptr"
  drv_resolve_format :: "(gralloc_drm_bo_t \<Rightarrow> cint list \<times> cint list \<times> cint list) option"

record gralloc_drm_t =
  fd :: cint
  drv :: gralloc_drm_drv_t

text \<open>Calls that leave the core, in the order they are made.\<close>

datatype ext_call =
    Alloc ptr ptr
  | Free ptr
  | Map ptr cint cint cint cint cint
  | Unmap ptr
  | RmFB ptr cint
  | ResolveFormat ptr

text \<open>
  The state of one process: the three stores, the cached pid \<open>gralloc_drm_pid\<close>, what
  \<open>getpid()\<close> returns, whether \<open>calloc\<close> fails, the last address handed out, and the
  external calls made so far.
\<close>

record gralloc_state =
  handles :: "ptr \<rightharpoonup> gralloc_drm_handle_t"
  bos :: "ptr \<rightharpoonup> gralloc_drm_bo_t"
  drms :: "ptr \<rightharpoonup> gralloc_drm_t"
  gralloc_drm_pid :: cint
  getpid :: cint
  calloc_fails :: bool
  next_ptr :: nat
  calls :: "ext_call list"

definition deref :: "(ptr \<rightharpoonup> 'a) \<Rightarrow> ptr \<Rightarrow> fault + 'a" where
  "deref m p =
     (if p = 0 then Inl NullDeref
      else case m p of None \<Rightarrow> Inl DanglingDeref | Some v \<Rightarrow> Inr v)"

definition modify_bo ::
  "gralloc_state \<Rightarrow> ptr \<Rightarrow> (gralloc_drm_bo_t \<Rightarrow> gralloc_drm_bo_t) \<Rightarrow> fault + gralloc_state" where
  "modify_bo s b f =
     (case deref (bos s) b of
        Inl e \<Rightarrow> Inl e
      | Inr bo \<Rightarrow> Inr (s\<lparr>bos := (bos s)(b \<mapsto> f bo)\<rparr>))"

definition modify_handle ::
  "gralloc_state \<Rightarrow> ptr \<Rightarrow> (gralloc_drm_handle_t \<Rightarrow> gralloc_drm_handle_t) \<Rightarrow> fault + gralloc_state" where
  "modify_handle s p f =
     (case deref (handles s) p of
        Inl e \<Rightarrow> Inl e
      | Inr h \<Rightarrow> Inr (s\<lparr>handles := (handles s)(p \<mapsto> f h)\<rparr>))"

section \<open>Helpers defined outside gralloc\_drm.c\<close>

text \<open>
  Modelled from the spec: \<open>gralloc_drm_handle\<close> (the handle header is not among the
  sources).  "If the handle is malformed (fails a structural/magic check), fail": a null
  pointer stays null, and a handle whose version, field counts or magic differ from what
  \<open>create_bo_handle\<close> writes yields null.
\<close>

definition gralloc_drm_handle :: "gralloc_consts \<Rightarrow> gralloc_state \<Rightarrow> ptr \<Rightarrow> fault + ptr" where
  "gralloc_drm_handle K s p =
     (if p = 0 then Inr 0
      else case handles s p of
        None \<Rightarrow> Inl DanglingDeref
      | Some h \<Rightarrow>
          if base_version h \<noteq> sizeof_native_handle K \<or>
             base_numInts h \<noteq> GRALLOC_DRM_HANDLE_NUM_INTS K \<or>
             base_numFds h \<noteq> GRALLOC_DRM_HANDLE_NUM_FDS K \<or>
             magic h \<noteq> GRALLOC_DRM_HANDLE_MAGIC K
          then Inr 0 else Inr p)"

text \<open>
  Modelled from the spec: \<open>gralloc_drm_bo_rm_fb\<close> (defined in the display code, not among
  the sources) "removes any active display-plane binding for the object": a bound
  framebuffer id is removed through the device and cleared.
\<close>

definition gralloc_drm_bo_rm_fb :: "gralloc_state \<Rightarrow> ptr \<Rightarrow> fault + gralloc_state" where
  "gralloc_drm_bo_rm_fb s b =
     (case deref (bos s) b of
        Inl e \<Rightarrow> Inl e
      | Inr bo \<Rightarrow>
          if fb_id bo \<noteq> 0
          then Inr (s\<lparr>bos := (bos s)(b \<mapsto> bo\<lparr>fb_id := 0\<rparr>),
                      calls := calls s @ [RmFB b (fb_id bo)]\<rparr>)
          else Inr s)"

text \<open>\<open>free(p)\<close> of the C library: nothing for \<open>NULL\<close>, a fault for storage already released.\<close>

definition free_handle :: "gralloc_state \<Rightarrow> ptr \<Rightarrow> fault + gralloc_state" where
  "free_handle s p =
     (if p = 0 then Inr s
      else case handles s p of
        None \<Rightarrow> Inl DanglingDeref
      | Some h \<Rightarrow> Inr (s\<lparr>handles := (handles s)(p := None)\<rparr>))"

section \<open>Calls into the backend\<close>

text \<open>
  \<open>drm->drv->alloc(drm->drv, handle)\<close>.  A produced object is new storage owned by the
  backend, at an address never handed out before.
\<close>

definition call_alloc :: "gralloc_state \<Rightarrow> ptr \<Rightarrow> ptr \<Rightarrow> fault + (ptr \<times> gralloc_state)" where
  "call_alloc s dp hp =
     (case deref (drms s) dp of
        Inl e \<Rightarrow> Inl e
      | Inr d \<Rightarrow>
         (case deref (handles s) hp of
            Inl e \<Rightarrow> Inl e
          | Inr h \<Rightarrow>
             (case drv_alloc (drv d) h of
                None \<Rightarrow> Inr (0, s\<lparr>calls := calls s @ [Alloc hp 0]\<rparr>)
              | Some (bo, h') \<Rightarrow>
                  let b = Suc (next_ptr s) in
                  Inr (b, s\<lparr>handles := (handles s)(hp \<mapsto> h'),
                            bos := (bos s)(b \<mapsto> bo),
                            next_ptr := b,
                            calls := calls s @ [Alloc hp b]\<rparr>))))"

text \<open>
  Modelled from the spec: the backend's \<open>free(bo)\<close> "releases backend-owned resources for
  a destroyed object"; the object itself is backend storage and is released with them.
\<close>

definition call_free :: "gralloc_state \<Rightarrow> ptr \<Rightarrow> fault + gralloc_state" where
  "call_free s b =
     (case deref (bos s) b of
        Inl e \<Rightarrow> Inl e
      | Inr bo \<Rightarrow>
         (case deref (drms s) (drm bo) of
            Inl e \<Rightarrow> Inl e
          | Inr d \<Rightarrow> Inr (s\<lparr>bos := (bos s)(b := None), calls := calls s @ [Free b]\<rparr>)))"

text \<open>\<open>bo->drm->drv->map(bo->drm->drv, bo, x, y, w, h, write, addr)\<close>.\<close>

definition call_map ::
  "gralloc_state \<Rightarrow> ptr \<Rightarrow> cint \<Rightarrow> cint \<Rightarrow> cint \<Rightarrow> cint \<Rightarrow> cint \<Rightarrow>
   fault + (cint \<times> ptr \<times> gralloc_state)" where
  "call_map s b x y w h write =
     (case deref (bos s) b of
        Inl e \<Rightarrow> Inl e
      | Inr bo \<Rightarrow>
         (case deref (drms s) (drm bo) of
            Inl e \<Rightarrow> Inl e
          | Inr d \<Rightarrow>
              let (err, a) = drv_map (drv d) bo x y w h write in
              Inr (err, a, s\<lparr>calls := calls s @ [Map b x y w h write]\<rparr>)))"

text \<open>\<open>bo->drm->drv->unmap(bo->drm->drv, bo)\<close>.\<close>

definition call_unmap :: "gralloc_state \<Rightarrow> ptr \<Rightarrow> fault + gralloc_state" where
  "call_unmap s b =
     (case deref (bos s) b of
        Inl e \<Rightarrow> Inl e
      | Inr bo \<Rightarrow>
         (case deref (drms s) (drm bo) of
            Inl e \<Rightarrow> Inl e
          | Inr d \<Rightarrow> Inr (s\<lparr>calls := calls s @ [Unmap b]\<rparr>)))"

section \<open>Handle validation and registration\<close>

definition gralloc_drm_get_pid :: "gralloc_state \<Rightarrow> cint \<times> gralloc_state" where
  "gralloc_drm_get_pid s =
     (let s' = (if gralloc_drm_pid s = 0 then s\<lparr>gralloc_drm_pid := getpid s\<rparr> else s)
      in (gralloc_drm_pid s', s'))"

definition validate_handle ::
  "gralloc_consts \<Rightarrow> gralloc_state \<Rightarrow> ptr \<Rightarrow> ptr \<Rightarrow> fault + (ptr \<times> gralloc_state)" where
  "validate_handle K s p dp =
     (case gralloc_drm_handle K s p of
        Inl e \<Rightarrow> Inl e
      | Inr hp \<Rightarrow>
          if hp = 0 then Inr (0, s)
          else
           (case deref (handles s) hp of
              Inl e \<Rightarrow> Inl e
            | Inr h \<Rightarrow>
                let (pid, s1) = gralloc_drm_get_pid s in
                if data_owner h \<noteq> pid then
                  if dp = 0 then Inr (0, s1)
                  else
                   (case (if name h \<noteq> 0 then call_alloc s1 dp hp else Inr (0, s1)) of
                      Inl e \<Rightarrow> Inl e
                    | Inr (b, s2) \<Rightarrow>
                       (case (if b \<noteq> 0
                              then modify_bo s2 b
                                     (\<lambda>bo. bo\<lparr>drm := dp, imported := 1, handle := hp, refcount := 1\<rparr>)
                              else Inr s2) of
                          Inl e \<Rightarrow> Inl e
                        | Inr s3 \<Rightarrow>
                            let (pid', s4) = gralloc_drm_get_pid s3 in
                            (case modify_handle s4 hp (\<lambda>x. x\<lparr>data_owner := pid', data := b\<rparr>) of
                               Inl e \<Rightarrow> Inl e
                             | Inr s5 \<Rightarrow> Inr (b, s5))))
                else Inr (data h, s1)))"

definition gralloc_drm_handle_register ::
  "gralloc_consts \<Rightarrow> gralloc_state \<Rightarrow> ptr \<Rightarrow> ptr \<Rightarrow> fault + (cint \<times> gralloc_state)" where
  "gralloc_drm_handle_register K s p dp =
     (case validate_handle K s p dp of
        Inl e \<Rightarrow> Inl e
      | Inr (b, s1) \<Rightarrow>
          if b = 0 then Inr (- EINVAL K, s1)
          else
           (case modify_bo s1 b (\<lambda>bo. bo\<lparr>refcount := refcount bo + 1\<rparr>) of
              Inl e \<Rightarrow> Inl e
            | Inr s2 \<Rightarrow> Inr (0, s2)))"

section \<open>Creation and destruction\<close>

definition calloc_handle :: gralloc_drm_handle_t where
  "calloc_handle =
     \<lparr>base_version = 0, base_numFds = 0, base_numInts = 0, prime_fd = 0, magic = 0,
      width = 0, height = 0, format = 0, usage = 0, plane_mask = 0, name = 0, stride = 0,
      data_owner = 0, data = 0\<rparr>"

definition create_bo_handle ::
  "gralloc_consts \<Rightarrow> gralloc_state \<Rightarrow> cint \<Rightarrow> cint \<Rightarrow> cint \<Rightarrow> cint \<Rightarrow> ptr \<times> gralloc_state" where
  "create_bo_handle K s w h f u =
     (if calloc_fails s then (0, s)
      else
        let p = Suc (next_ptr s) in
        (p, s\<lparr>handles := (handles s)(p \<mapsto> calloc_handle
                 \<lparr>base_version := sizeof_native_handle K,
                  base_numFds := GRALLOC_DRM_HANDLE_NUM_FDS K,
                  base_numInts := GRALLOC_DRM_HANDLE_NUM_INTS K,
                  prime_fd := - 1,
                  magic := GRALLOC_DRM_HANDLE_MAGIC K,
                  width := w, height := h, format := f, usage := u,
                  plane_mask := 0\<rparr>),
              next_ptr := p\<rparr>))"

definition gralloc_drm_bo_create ::
  "gralloc_consts \<Rightarrow> gralloc_state \<Rightarrow> ptr \<Rightarrow> cint \<Rightarrow> cint \<Rightarrow> cint \<Rightarrow> cint \<Rightarrow>
   fault + (ptr \<times> gralloc_state)" where
  "gralloc_drm_bo_create K s dp w h f u =
     (case create_bo_handle K s w h f u of
        (hp, s1) \<Rightarrow>
          if hp = 0 then Inr (0, s1)
          else
           (case modify_handle s1 hp (\<lambda>x. x\<lparr>plane_mask := planes_for_format K f\<rparr>) of
              Inl e \<Rightarrow> Inl e
            | Inr s2 \<Rightarrow>
               (case call_alloc s2 dp hp of
                  Inl e \<Rightarrow> Inl e
                | Inr (b, s3) \<Rightarrow>
                    if b = 0 then
                      (case free_handle s3 hp of Inl e \<Rightarrow> Inl e | Inr s4 \<Rightarrow> Inr (0, s4))
                    else
                     (case modify_bo s3 b
                             (\<lambda>bo. bo\<lparr>drm := dp, imported := 0, handle := hp, fb_id := 0,
                                      refcount := 1\<rparr>) of
                        Inl e \<Rightarrow> Inl e
                      | Inr s4 \<Rightarrow>
                          let (pid, s5) = gralloc_drm_get_pid s4 in
                          (case modify_handle s5 hp (\<lambda>x. x\<lparr>data_owner := pid, data := b\<rparr>) of
                             Inl e \<Rightarrow> Inl e
                           | Inr s6 \<Rightarrow> Inr (b, s6))))))"

definition gralloc_drm_bo_destroy :: "gralloc_state \<Rightarrow> ptr \<Rightarrow> fault + gralloc_state" where
  "gralloc_drm_bo_destroy s b =
     (case deref (bos s) b of
        Inl e \<Rightarrow> Inl e
      | Inr bo \<Rightarrow>
          let hp = handle bo; imp = imported bo in
          if refcount bo \<noteq> 0 then Inr s
          else
           (case gralloc_drm_bo_rm_fb s b of
              Inl e \<Rightarrow> Inl e
            | Inr s1 \<Rightarrow>
               (case call_free s1 b of
                  Inl e \<Rightarrow> Inl e
                | Inr s2 \<Rightarrow>
                    if imp \<noteq> 0
                    then modify_handle s2 hp (\<lambda>x. x\<lparr>data_owner := 0, data := 0\<rparr>)
                    else free_handle s2 hp)))"

definition gralloc_drm_bo_decref :: "gralloc_state \<Rightarrow> ptr \<Rightarrow> fault + gralloc_state" where
  "gralloc_drm_bo_decref s b =
     (case deref (bos s) b of
        Inl e \<Rightarrow> Inl e
      | Inr bo \<Rightarrow>
          let s1 = s\<lparr>bos := (bos s)(b \<mapsto> bo\<lparr>refcount := refcount bo - 1\<rparr>)\<rparr> in
          if refcount bo - 1 = 0 then gralloc_drm_bo_destroy s1 b else Inr s1)"

definition gralloc_drm_handle_unregister ::
  "gralloc_consts \<Rightarrow> gralloc_state \<Rightarrow> ptr \<Rightarrow> fault + (cint \<times> gralloc_state)" where
  "gralloc_drm_handle_unregister K s p =
     (case validate_handle K s p 0 of
        Inl e \<Rightarrow> Inl e
      | Inr (b, s1) \<Rightarrow>
          if b = 0 then Inr (- EINVAL K, s1)
          else
           (case gralloc_drm_bo_decref s1 b of
              Inl e \<Rightarrow> Inl e
            | Inr s2 \<Rightarrow>
               (case deref (bos s2) b of
                  Inl e \<Rightarrow> Inl e
                | Inr bo \<Rightarrow>
                    if imported bo \<noteq> 0
                    then (case gralloc_drm_bo_decref s2 b of
                            Inl e \<Rightarrow> Inl e
                          | Inr s3 \<Rightarrow> Inr (0, s3))
                    else Inr (0, s2))))"

definition gralloc_drm_bo_from_handle ::
  "gralloc_consts \<Rightarrow> gralloc_state \<Rightarrow> ptr \<Rightarrow> fault + (ptr \<times> gralloc_state)" where
  "gralloc_drm_bo_from_handle K s p = validate_handle K s p 0"

section \<open>Queries\<close>

definition gralloc_drm_get_gem_handle :: "gralloc_consts \<Rightarrow> gralloc_state \<Rightarrow> ptr \<Rightarrow> fault + cint" where
  "gralloc_drm_get_gem_handle K s p =
     (case gralloc_drm_handle K s p of
        Inl e \<Rightarrow> Inl e
      | Inr hp \<Rightarrow>
          if hp \<noteq> 0 then (case deref (handles s) hp of Inl e \<Rightarrow> Inl e | Inr h \<Rightarrow> Inr (name h))
          else Inr 0)"

definition gralloc_drm_get_prime_fd :: "gralloc_consts \<Rightarrow> gralloc_state \<Rightarrow> ptr \<Rightarrow> fault + cint" where
  "gralloc_drm_get_prime_fd K s p =
     (case gralloc_drm_handle K s p of
        Inl e \<Rightarrow> Inl e
      | Inr hp \<Rightarrow>
          if hp \<noteq> 0 then (case deref (handles s) hp of Inl e \<Rightarrow> Inl e | Inr h \<Rightarrow> Inr (prime_fd h))
          else Inr (- 1))"

text \<open>
  \<open>handle->data\<close> and \<open>bo->drm\<close> are read in the initialisers, before the test
  \<open>handle && drm->drv->resolve_format\<close>.
\<close>

definition gralloc_drm_resolve_format ::
  "gralloc_consts \<Rightarrow> gralloc_state \<Rightarrow> ptr \<Rightarrow>
   fault + ((cint list \<times> cint list \<times> cint list) option \<times> gralloc_state)" where
  "gralloc_drm_resolve_format K s p =
     (case gralloc_drm_handle K s p of
        Inl e \<Rightarrow> Inl e
      | Inr hp \<Rightarrow>
         (case deref (handles s) hp of
            Inl e \<Rightarrow> Inl e
          | Inr h \<Rightarrow>
             (case deref (bos s) (data h) of
                Inl e \<Rightarrow> Inl e
              | Inr bo \<Rightarrow>
                  if hp \<noteq> 0 then
                    (case deref (drms s) (drm bo) of
                       Inl e \<Rightarrow> Inl e
                     | Inr d \<Rightarrow>
                        (case drv_resolve_format (drv d) of
                           None \<Rightarrow> Inr (None, s)
                         | Some rf \<Rightarrow>
                             Inr (Some (rf bo), s\<lparr>calls := calls s @ [ResolveFormat (data h)]\<rparr>)))
                  else Inr (None, s))))"

section \<open>Lock and unlock\<close>

definition sw_mask :: "gralloc_consts \<Rightarrow> cint" where
  "sw_mask K = GRALLOC_USAGE_SW_WRITE_MASK K OR GRALLOC_USAGE_SW_READ_MASK K"

definition gralloc_drm_bo_lock ::
  "gralloc_consts \<Rightarrow> gralloc_state \<Rightarrow> ptr \<Rightarrow> cint \<Rightarrow> cint \<Rightarrow> cint \<Rightarrow> cint \<Rightarrow> cint \<Rightarrow>
   fault + (cint \<times> ptr option \<times> gralloc_state)" where
  "gralloc_drm_bo_lock K s b u x y w h =
     (case deref (bos s) b of
        Inl e \<Rightarrow> Inl e
      | Inr bo \<Rightarrow>
         (case deref (handles s) (handle bo) of
            Inl e \<Rightarrow> Inl e
          | Inr hnd \<Rightarrow>
              if usage hnd AND u \<noteq> u \<and>
                 usage hnd AND (GRALLOC_USAGE_SW_READ_OFTEN K OR GRALLOC_USAGE_HW_FB K OR
                               GRALLOC_USAGE_HW_TEXTURE K OR
                               GRALLOC_USAGE_HW_VIDEO_ENCODER K) = 0
              then Inr (- EINVAL K, None, s)
              else if lock_count bo \<noteq> 0 \<and> locked_for bo AND u \<noteq> u
              then Inr (- EINVAL K, None, s)
              else
                let u' = u OR locked_for bo in
                if u' AND sw_mask K \<noteq> 0 then
                  let write = (if u' AND GRALLOC_USAGE_SW_WRITE_MASK K \<noteq> 0 then 1 else 0) in
                  (case call_map s b x y w h write of
                     Inl e \<Rightarrow> Inl e
                   | Inr (err, a, s1) \<Rightarrow>
                       if err \<noteq> 0 then Inr (err, Some a, s1)
                       else
                        (case modify_bo s1 b
                                (\<lambda>bo. bo\<lparr>lock_count := lock_count bo + 1,
                                         locked_for := locked_for bo OR u'\<rparr>) of
                           Inl e \<Rightarrow> Inl e
                         | Inr s2 \<Rightarrow> Inr (0, Some a, s2)))
                else
                  (case modify_bo s b
                          (\<lambda>bo. bo\<lparr>lock_count := lock_count bo + 1,
                                   locked_for := locked_for bo OR u'\<rparr>) of
                     Inl e \<Rightarrow> Inl e
                   | Inr s2 \<Rightarrow> Inr (0, None, s2))))"

definition gralloc_drm_bo_unlock :: "gralloc_consts \<Rightarrow> gralloc_state \<Rightarrow> ptr \<Rightarrow> fault + gralloc_state" where
  "gralloc_drm_bo_unlock K s b =
     (case deref (bos s) b of
        Inl e \<Rightarrow> Inl e
      | Inr bo \<Rightarrow>
          let mapped = locked_for bo AND sw_mask K in
          if lock_count bo = 0 then Inr s
          else
           (case (if mapped \<noteq> 0 then call_unmap s b else Inr s) of
              Inl e \<Rightarrow> Inl e
            | Inr s1 \<Rightarrow>
                modify_bo s1 b
                  (\<lambda>bo. let c = lock_count bo - 1 in
                        bo\<lparr>lock_count := c,
                           locked_for := (if c = 0 then 0 else locked_for bo)\<rparr>)))"

section \<open>Repeated calls\<close>

text \<open>
  The same call made \<open>n\<close> times in a row, each on the state the previous one left: the
  return codes in order, and the final state.  A fault ends the run.
\<close>

fun repeat_call ::
  "(gralloc_state \<Rightarrow> fault + (cint \<times> gralloc_state)) \<Rightarrow> nat \<Rightarrow> gralloc_state \<Rightarrow>
   fault + (cint list \<times> gralloc_state)" where
  "repeat_call f 0 s = Inr ([], s)"
| "repeat_call f (Suc n) s =
     (case f s of
        Inl e \<Rightarrow> Inl e
      | Inr (r, s1) \<Rightarrow>
         (case repeat_call f n s1 of
            Inl e \<Rightarrow> Inl e
          | Inr (rs, s2) \<Rightarrow> Inr (r # rs, s2)))"

section \<open>Example configuration and states\<close>

text \<open>
  The constants as the Android headers give them (\<open>GRALLOC_USAGE_*\<close> of the gralloc HAL,
  \<open>EINVAL\<close> of errno), with a handle layout of one file descriptor and twelve integers.
\<close>

definition android_consts :: gralloc_consts where
  "android_consts =
     \<lparr>sizeof_native_handle = 12,
      GRALLOC_DRM_HANDLE_NUM_INTS = 12,
      GRALLOC_DRM_HANDLE_NUM_FDS = 1,
      GRALLOC_DRM_HANDLE_MAGIC = 0x12345678,
      GRALLOC_USAGE_SW_READ_MASK = 0xF,
      GRALLOC_USAGE_SW_WRITE_MASK = 0xF0,
      GRALLOC_USAGE_SW_READ_OFTEN = 0x3,
      GRALLOC_USAGE_HW_FB = 0x1000,
      GRALLOC_USAGE_HW_TEXTURE = 0x100,
      GRALLOC_USAGE_HW_VIDEO_ENCODER = 0x10000,
      EINVAL = 22,
      planes_for_format = (\<lambda>_. 1)\<rparr>"

definition calloc_bo :: gralloc_drm_bo_t where
  "calloc_bo =
     \<lparr>drm = 0, handle = 0, imported = 0, fb_id = 0, lock_count = 0, locked_for = 0,
      refcount = 0\<rparr>"

text \<open>
  A backend double: \<open>alloc\<close> always produces a zeroed object and names a fresh buffer,
  \<open>map\<close> succeeds at address 4096, \<open>resolve_format\<close> is not implemented.  A second context
  has a backend whose \<open>alloc\<close> and \<open>map\<close> fail.
\<close>

definition test_drv :: gralloc_drm_drv_t where
  "test_drv =
     \<lparr>drv_alloc = (\<lambda>h. Some (calloc_bo,
                    if name h = 0 then h\<lparr>name := 1, stride := 4 * width h\<rparr> else h)),
      drv_map = (\<lambda>bo x y w h write. (0, 4096)),
      drv_resolve_format = None\<rparr>"

definition failing_drv :: gralloc_drm_drv_t where
  "failing_drv =
     \<lparr>drv_alloc = (\<lambda>h. None),
      drv_map = (\<lambda>bo x y w h write. (- 5, 0)),
      drv_resolve_format = None\<rparr>"

definition init_state :: gralloc_state where
  "init_state =
     \<lparr>handles = Map.empty,
      bos = Map.empty,
      drms = [1 \<mapsto> \<lparr>fd = 3, drv = test_drv\<rparr>, 2 \<mapsto> \<lparr>fd = 4, drv = failing_drv\<rparr>],
      gralloc_drm_pid = 0,
      getpid = 100,
      calloc_fails = False,
      next_ptr = 2,
      calls = []\<rparr>"

text \<open>
  The handle and object that \<open>gralloc_drm_bo_create\<close> makes in \<open>init_state\<close> for a 64 by 64
  buffer of format 1 with usage \<open>SW_READ_OFTEN | SW_WRITE_OFTEN | HW_TEXTURE\<close>.
\<close>

definition local_handle :: gralloc_drm_handle_t where
  "local_handle =
     \<lparr>base_version = 12, base_numFds = 1, base_numInts = 12, prime_fd = - 1,
      magic = 0x12345678, width = 64, height = 64, format = 1, usage = 0x133,
      plane_mask = 1, name = 1, stride = 256, data_owner = 100, data = 4\<rparr>"

definition local_bo :: gralloc_drm_bo_t where
  "local_bo = calloc_bo\<lparr>drm := 1, handle := 3, refcount := 1\<rparr>"

definition local_state :: gralloc_state where
  "local_state =
     init_state\<lparr>handles := [3 \<mapsto> local_handle], bos := [4 \<mapsto> local_bo],
                gralloc_drm_pid := 100, next_ptr := 4, calls := [Alloc 3 4]\<rparr>"

text \<open>
  The same handle as it arrives in another process (pid 100), still carrying the
  process-local fields of its creator (pid 77) and a received file descriptor.
\<close>

definition remote_handle :: gralloc_drm_handle_t where
  "remote_handle = local_handle\<lparr>prime_fd := 9, data_owner := 77, data := 4\<rparr>"

definition remote_state :: gralloc_state where
  "remote_state = init_state\<lparr>handles := [3 \<mapsto> remote_handle], next_ptr := 3\<rparr>"

text \<open>The object that importing \<open>remote_handle\<close> produces, with a given reference count.\<close>

definition imported_bo :: "cint \<Rightarrow> gralloc_drm_bo_t" where
  "imported_bo r = calloc_bo\<lparr>drm := 1, handle := 3, imported := 1, refcount := r\<rparr>"

definition imported_state :: "cint \<Rightarrow> gralloc_state" where
  "imported_state r =
     init_state\<lparr>handles := [3 \<mapsto> remote_handle\<lparr>data_owner := 100, data := 4\<rparr>],
                bos := [4 \<mapsto> imported_bo r],
                gralloc_drm_pid := 100, next_ptr := 4, calls := [Alloc 3 4]\<rparr>"

text \<open>\<open>local_state\<close> after one successful lock for \<open>SW_READ_OFTEN\<close>.\<close>

definition locked_state :: gralloc_state where
  "locked_state =
     local_state\<lparr>bos := [4 \<mapsto> local_bo\<lparr>lock_count := 1, locked_for := 0x3\<rparr>],
                 calls := [Alloc 3 4, Map 4 0 0 64 64 0]\<rparr>"

text \<open>\<open>locked_state\<close> after a second successful lock for \<open>SW_READ_OFTEN\<close>.\<close>

definition twice_locked_state :: gralloc_state where
  "twice_locked_state =
     local_state\<lparr>bos := [4 \<mapsto> local_bo\<lparr>lock_count := 2, locked_for := 0x3\<rparr>],
                 calls := [Alloc 3 4, Map 4 0 0 64 64 0, Map 4 0 0 64 64 0]\<rparr>"

text \<open>\<open>local_state\<close> after one registration of its handle.\<close>

definition registered_state :: gralloc_state where
  "registered_state = local_state\<lparr>bos := [4 \<mapsto> local_bo\<lparr>refcount := 2\<rparr>]\<rparr>"

text \<open>\<open>remote_state\<close> after an import through the context whose backend fails.\<close>

definition failed_import_state :: gralloc_state where
  "failed_import_state =
     remote_state\<lparr>handles := [3 \<mapsto> remote_handle\<lparr>data_owner := 100, data := 0\<rparr>],
                  gralloc_drm_pid := 100, calls := [Alloc 3 0]\<rparr>"

text \<open>A handle from another process that carries no backend name, before and after an
  import attempt.\<close>

definition unnamed_state :: gralloc_state where
  "unnamed_state = remote_state\<lparr>handles := [3 \<mapsto> remote_handle\<lparr>name := 0\<rparr>]\<rparr>"

definition failed_unnamed_state :: gralloc_state where
  "failed_unnamed_state =
     remote_state\<lparr>handles := [3 \<mapsto> remote_handle\<lparr>name := 0, data_owner := 100, data := 0\<rparr>],
                  gralloc_drm_pid := 100\<rparr>"

text \<open>A handle whose declared usage is \<open>SW_READ_OFTEN\<close> alone, and one declared \<open>HW_RENDER\<close> alone.\<close>

definition readable_state :: gralloc_state where
  "readable_state = local_state\<lparr>handles := [3 \<mapsto> local_handle\<lparr>usage := 0x3\<rparr>]\<rparr>"

definition render_state :: gralloc_state where
  "render_state = local_state\<lparr>handles := [3 \<mapsto> local_handle\<lparr>usage := 0x200\<rparr>]\<rparr>"

text \<open>\<open>local_state\<close> with the object bound to the context whose backend fails to map.\<close>

definition unmappable_state :: gralloc_state where
  "unmappable_state = local_state\<lparr>bos := [4 \<mapsto> local_bo\<lparr>drm := 2\<rparr>]\<rparr>"

lemmas example_defs = android_consts_def calloc_bo_def test_drv_def failing_drv_def init_state_def
  local_handle_def local_bo_def local_state_def remote_handle_def remote_state_def
  imported_bo_def imported_state_def calloc_handle_def locked_state_def registered_state_def
  failed_import_state_def readable_state_def render_state_def unmappable_state_def
  unnamed_state_def failed_unnamed_state_def twice_locked_state_def

lemmas operation_defs = gralloc_drm_handle_def deref_def modify_bo_def modify_handle_def
  gralloc_drm_bo_rm_fb_def free_handle_def call_alloc_def call_free_def call_map_def
  call_unmap_def gralloc_drm_get_pid_def validate_handle_def gralloc_drm_handle_register_def
  create_bo_handle_def gralloc_drm_bo_create_def gralloc_drm_bo_destroy_def
  gralloc_drm_bo_decref_def gralloc_drm_handle_unregister_def gralloc_drm_resolve_format_def
  sw_mask_def gralloc_drm_bo_lock_def gralloc_drm_bo_unlock_def Let_def

section \<open>The cached process id\<close>

lemma get_pid_frame:
  "handles (snd (gralloc_drm_get_pid s)) = handles s"
  "bos (snd (gralloc_drm_get_pid s)) = bos s"
  "drms (snd (gralloc_drm_get_pid s)) = drms s"
  "calls (snd (gralloc_drm_get_pid s)) = calls s"
  "next_ptr (snd (gralloc_drm_get_pid s)) = next_ptr s"
  "getpid (snd (gralloc_drm_get_pid s)) = getpid s"
  "calloc_fails (snd (gralloc_drm_get_pid s)) = calloc_fails s"
  by (simp_all add: gralloc_drm_get_pid_def Let_def)

lemma get_pid_idem:
  "gralloc_drm_get_pid (snd (gralloc_drm_get_pid s)) = gralloc_drm_get_pid s"
  by (simp add: gralloc_drm_get_pid_def Let_def)

lemma get_pid_fixed:
  "gralloc_drm_get_pid s = (pid, s') \<Longrightarrow> gralloc_drm_get_pid s' = (pid, s')"
  using get_pid_idem[of s] by simp

lemma upd_pid_same: "(s\<lparr>gralloc_drm_pid := v\<rparr> = s) = (gralloc_drm_pid s = v)"
proof
  assume "s\<lparr>gralloc_drm_pid := v\<rparr> = s"
  then have "gralloc_drm_pid (s\<lparr>gralloc_drm_pid := v\<rparr>) = gralloc_drm_pid s" by simp
  then show "gralloc_drm_pid s = v" by simp
next
  assume "gralloc_drm_pid s = v"
  then show "s\<lparr>gralloc_drm_pid := v\<rparr> = s" by (cases s) simp
qed

lemma get_pid_fixed_iff:
  "gralloc_drm_get_pid s = (pid, s) \<longleftrightarrow>
     gralloc_drm_pid s = pid \<and> (pid = 0 \<longrightarrow> getpid s = 0)"
  by (auto simp: gralloc_drm_get_pid_def Let_def upd_pid_same)

lemma get_pid_cached:
  "(gralloc_drm_pid t = 0 \<longrightarrow> getpid t = 0) \<Longrightarrow>
   gralloc_drm_get_pid t = (gralloc_drm_pid t, t)"
  by (simp add: get_pid_fixed_iff)

section \<open>Validation\<close>

lemma validate_handle_cached:
  assumes "p \<noteq> 0" "gralloc_drm_handle K s p = Inr p" "handles s p = Some h"
    "data_owner h = fst (gralloc_drm_get_pid s)"
  shows "validate_handle K s p dp = Inr (data h, snd (gralloc_drm_get_pid s))"
  using assms by (simp add: validate_handle_def deref_def split_beta)

lemma validate_handle_lookup:
  assumes "p = 0 \<or> handles s p \<noteq> None"
  shows "\<exists>b s'. validate_handle K s p 0 = Inr (b, s') \<and> handles s' = handles s \<and>
     bos s' = bos s \<and> calls s' = calls s \<and> next_ptr s' = next_ptr s \<and>
     (b = 0 \<or> (\<exists>h. handles s p = Some h \<and> b = data h))"
  using assms
  by (auto simp: validate_handle_def gralloc_drm_handle_def deref_def split_beta get_pid_frame)

lemma call_alloc_null:
  "call_alloc s dp hp = Inr (0, s2) \<Longrightarrow> s2 = s\<lparr>calls := calls s @ [Alloc hp 0]\<rparr>"
  by (auto simp: call_alloc_def Let_def split: sum.splits option.splits)

lemma validate_import_fails:
  assumes "p \<noteq> 0" "dp \<noteq> 0" "gralloc_drm_handle K s p = Inr p" "handles s p = Some h"
    "data_owner h \<noteq> fst (gralloc_drm_get_pid s)"
    "validate_handle K s p dp = Inr (0, s')"
  shows "handles s' =
           (handles s)(p \<mapsto> h\<lparr>data_owner := fst (gralloc_drm_get_pid s), data := 0\<rparr>) \<and>
         bos s' = bos s \<and>
         calls s' = calls s @ (if name h \<noteq> 0 then [Alloc p 0] else []) \<and>
         gralloc_drm_get_pid s' = (fst (gralloc_drm_get_pid s), s')"
proof -
  obtain pid s1 where g: "gralloc_drm_get_pid s = (pid, s1)"
    by (cases "gralloc_drm_get_pid s")
  have g1: "gralloc_drm_pid s1 = pid \<and> (pid = 0 \<longrightarrow> getpid s1 = 0)"
    using get_pid_fixed[OF g] by (simp add: get_pid_fixed_iff)
  have g2: "gralloc_drm_get_pid s1 = (pid, s1)" using get_pid_fixed[OF g] .
  have f1: "handles s1 = handles s" "bos s1 = bos s" "calls s1 = calls s" "drms s1 = drms s"
    using get_pid_frame[of s] g by simp_all
  have f2: "fst (gralloc_drm_get_pid s) = pid" using g by simp
  show ?thesis
  proof (cases "name h = 0")
    case True
    with assms(1-4,6) assms(5)[unfolded f2] g g1 g2 f1 show ?thesis
      unfolding f2
      by (auto simp: get_pid_fixed_iff validate_handle_def deref_def modify_handle_def Let_def
          split: if_splits)
  next
    case False
    from assms(1-4,6) assms(5)[unfolded f2] g False
    obtain s2 where a: "call_alloc s1 dp p = Inr (0, s2)"
      by (auto simp: validate_handle_def deref_def Let_def
          split: sum.splits if_splits prod.splits)
    have s2: "s2 = s1\<lparr>calls := calls s1 @ [Alloc p 0]\<rparr>" using call_alloc_null[OF a] .
    have c: "gralloc_drm_pid s1 = 0 \<longrightarrow> getpid s1 = 0" using g1 by auto
    from assms(1-4,6) assms(5)[unfolded f2] g False a f1 g1 c show ?thesis
      unfolding f2
      by (auto simp: get_pid_cached validate_handle_def deref_def modify_handle_def s2)
  qed
qed

lemma repeat_call_fixed:
  "f s = Inr (r, s) \<Longrightarrow> repeat_call f n s = Inr (replicate n r, s)"
  by (induction n) simp_all

section \<open>What each operation does on live objects\<close>

lemma lock_char:
  assumes "b \<noteq> 0" "bos s b = Some bo" "handle bo \<noteq> 0" "handles s (handle bo) = Some hnd"
    "drm bo \<noteq> 0" "drms s (drm bo) = Some d"
  shows "gralloc_drm_bo_lock K s b u x y w h =
    (if (usage hnd AND u \<noteq> u \<and>
         usage hnd AND (GRALLOC_USAGE_SW_READ_OFTEN K OR GRALLOC_USAGE_HW_FB K OR
                        GRALLOC_USAGE_HW_TEXTURE K OR GRALLOC_USAGE_HW_VIDEO_ENCODER K) = 0) \<or>
        (lock_count bo \<noteq> 0 \<and> locked_for bo AND u \<noteq> u)
     then Inr (- EINVAL K, None, s)
     else if (u OR locked_for bo) AND sw_mask K \<noteq> 0 then
       (let write = (if (u OR locked_for bo) AND GRALLOC_USAGE_SW_WRITE_MASK K \<noteq> 0 then 1 else 0);
            r = drv_map (drv d) bo x y w h write
        in if fst r \<noteq> 0
           then Inr (fst r, Some (snd r), s\<lparr>calls := calls s @ [Map b x y w h write]\<rparr>)
           else Inr (0, Some (snd r),
                  s\<lparr>bos := (bos s)(b \<mapsto> bo\<lparr>lock_count := lock_count bo + 1,
                                            locked_for := locked_for bo OR (u OR locked_for bo)\<rparr>),
                    calls := calls s @ [Map b x y w h write]\<rparr>))
     else Inr (0, None,
            s\<lparr>bos := (bos s)(b \<mapsto> bo\<lparr>lock_count := lock_count bo + 1,
                                      locked_for := locked_for bo OR (u OR locked_for bo)\<rparr>)\<rparr>))"
  using assms
  by (simp add: gralloc_drm_bo_lock_def deref_def call_map_def modify_bo_def Let_def split_beta)

lemma unlock_char:
  assumes "b \<noteq> 0" "bos s b = Some bo" 
    "locked_for bo AND sw_mask K \<noteq> 0 \<longrightarrow> drm bo \<noteq> 0 \<and> drms s (drm bo) \<noteq> None"
  shows "gralloc_drm_bo_unlock K s b =
     (if lock_count bo = 0 then Inr s
      else Inr (s\<lparr>bos := (bos s)(b \<mapsto> bo\<lparr>lock_count := lock_count bo - 1,
                 locked_for := (if lock_count bo - 1 = 0 then 0 else locked_for bo)\<rparr>),
               calls := calls s @ (if locked_for bo AND sw_mask K \<noteq> 0 then [Unmap b] else [])\<rparr>))"
  using assms
  by (auto simp: gralloc_drm_bo_unlock_def deref_def call_unmap_def modify_bo_def Let_def)

lemma destroy_char:
  assumes "b \<noteq> 0" "bos s b = Some bo" "refcount bo = 0"
    "drm bo \<noteq> 0" "drms s (drm bo) = Some d" "handle bo \<noteq> 0" "handles s (handle bo) = Some h"
  shows "gralloc_drm_bo_destroy s b =
     Inr (s\<lparr>bos := (bos s)(b := None),
            handles := (if imported bo \<noteq> 0
                        then (handles s)(handle bo \<mapsto> h\<lparr>data_owner := 0, data := 0\<rparr>)
                        else (handles s)(handle bo := None)),
            calls := calls s @ (if fb_id bo \<noteq> 0 then [RmFB b (fb_id bo)] else []) @ [Free b]\<rparr>)"
  using assms
  by (auto simp: gralloc_drm_bo_destroy_def gralloc_drm_bo_rm_fb_def call_free_def deref_def
      modify_handle_def free_handle_def Let_def)

lemma decref_char:
  assumes "b \<noteq> 0" "bos s b = Some bo"
  shows "gralloc_drm_bo_decref s b =
     (if refcount bo = 1
      then gralloc_drm_bo_destroy (s\<lparr>bos := (bos s)(b \<mapsto> bo\<lparr>refcount := 0\<rparr>)\<rparr>) b
      else Inr (s\<lparr>bos := (bos s)(b \<mapsto> bo\<lparr>refcount := refcount bo - 1\<rparr>)\<rparr>))"
  using assms
  by (auto simp: gralloc_drm_bo_decref_def deref_def Let_def)

lemma create_result:
  assumes "gralloc_drm_bo_create K s dp w h f u = Inr (b, s1)" "b \<noteq> 0"
  shows "\<exists>bo0 h1 d pid.
     dp \<noteq> 0 \<and> drms s dp = Some d \<and> b = Suc (Suc (next_ptr s)) \<and>
     bos s1 = (bos s)(b \<mapsto> bo0\<lparr>drm := dp, imported := 0, handle := Suc (next_ptr s),
                                  fb_id := 0, refcount := 1\<rparr>) \<and>
     handles s1 = (handles s)(Suc (next_ptr s) \<mapsto> h1\<lparr>data_owner := pid, data := b\<rparr>) \<and>
     drms s1 = drms s \<and>
     calls s1 = calls s @ [Alloc (Suc (next_ptr s)) b]"
proof -
  from assms have nf: "\<not> calloc_fails s"
    by (auto simp: gralloc_drm_bo_create_def create_bo_handle_def)
  let ?hp = "Suc (next_ptr s)"
  obtain s0 where c0: "create_bo_handle K s w h f u = (?hp, s0)"
    and s0: "drms s0 = drms s" "bos s0 = bos s" "calls s0 = calls s" "next_ptr s0 = ?hp"
      "\<exists>h0. handles s0 = (handles s)(?hp \<mapsto> h0)"
    using nf by (auto simp: create_bo_handle_def Let_def)
  from s0(5) obtain h0 where h0: "handles s0 = (handles s)(?hp \<mapsto> h0)" by blast
  let ?s2 = "s0\<lparr>handles := (handles s0)(?hp \<mapsto> h0\<lparr>plane_mask := planes_for_format K f\<rparr>)\<rparr>"
  have m: "modify_handle s0 ?hp (\<lambda>x. x\<lparr>plane_mask := planes_for_format K f\<rparr>) = Inr ?s2"
    by (simp add: modify_handle_def deref_def h0)
  from assms c0 m obtain s3 where a: "call_alloc ?s2 dp ?hp = Inr (b, s3)"
    by (auto simp: gralloc_drm_bo_create_def split: sum.splits if_splits prod.splits)
  from a assms(2) obtain d bo0 h1 where d: "dp \<noteq> 0" "drms s dp = Some d"
    and s3: "s3 = ?s2\<lparr>handles := (handles ?s2)(?hp \<mapsto> h1), bos := (bos ?s2)(b \<mapsto> bo0),
                      next_ptr := b, calls := calls ?s2 @ [Alloc ?hp b]\<rparr>"
    and b: "b = Suc ?hp"
    by (auto simp: call_alloc_def deref_def s0 Let_def split: if_splits option.splits)
  obtain pid s5 where g: "gralloc_drm_get_pid
      (s3\<lparr>bos := (bos s3)(b \<mapsto> bo0\<lparr>drm := dp, imported := 0, handle := ?hp, fb_id := 0,
                                      refcount := 1\<rparr>)\<rparr>) = (pid, s5)"
    by (cases "gralloc_drm_get_pid
      (s3\<lparr>bos := (bos s3)(b \<mapsto> bo0\<lparr>drm := dp, imported := 0, handle := ?hp, fb_id := 0,
                                      refcount := 1\<rparr>)\<rparr>)")
  have fr: "handles s5 = handles s3" "drms s5 = drms s3" "calls s5 = calls s3"
     "bos s5 = (bos s3)(b \<mapsto> bo0\<lparr>drm := dp, imported := 0, handle := ?hp, fb_id := 0,
                                      refcount := 1\<rparr>)"
    using get_pid_frame[of "(s3\<lparr>bos := (bos s3)(b \<mapsto> bo0\<lparr>drm := dp, imported := 0, handle := ?hp, fb_id := 0,
                                      refcount := 1\<rparr>)\<rparr>)"] g by simp_all
  have bs3: "bos s3 b = Some bo0" "handles s3 ?hp = Some h1" by (simp_all add: s3)
  from assms c0 m a g bs3 b
  have s1: "s1 = s5\<lparr>handles := (handles s5)(?hp \<mapsto> h1\<lparr>data_owner := pid, data := b\<rparr>)\<rparr>"
    by (auto simp: gralloc_drm_bo_create_def modify_bo_def modify_handle_def deref_def fr)
  show ?thesis
    apply (rule exI[of _ bo0], rule exI[of _ h1], rule exI[of _ d], rule exI[of _ pid])
    using d b by (simp add: s1 fr s3 s0 h0)
qed

lemma create_then_decref:
  assumes "gralloc_drm_bo_create K s dp w h f u = Inr (b, s1)" "b \<noteq> 0"
  shows "\<exists>s2. gralloc_drm_bo_decref s1 b = Inr s2 \<and>
     bos s2 = (bos s)(b := None) \<and> handles s2 = (handles s)(Suc (next_ptr s) := None) \<and>
     drms s2 = drms s \<and> calls s2 = calls s @ [Alloc (Suc (next_ptr s)) b, Free b]"
proof -
  from create_result[OF assms] obtain bo0 h1 d pid where
    r: "dp \<noteq> 0" "drms s dp = Some d" "b = Suc (Suc (next_ptr s))"
     "bos s1 = (bos s)(b \<mapsto> bo0\<lparr>drm := dp, imported := 0, handle := Suc (next_ptr s),
                                  fb_id := 0, refcount := 1\<rparr>)"
     "handles s1 = (handles s)(Suc (next_ptr s) \<mapsto> h1\<lparr>data_owner := pid, data := b\<rparr>)"
     "drms s1 = drms s"
     "calls s1 = calls s @ [Alloc (Suc (next_ptr s)) b]"
    by blast
  let ?bo = "bo0\<lparr>drm := dp, imported := 0, handle := Suc (next_ptr s), fb_id := 0, refcount := 1\<rparr>"
  have b1: "bos s1 b = Some ?bo" by (simp add: r)
  let ?t = "s1\<lparr>bos := (bos s1)(b \<mapsto> ?bo\<lparr>refcount := 0\<rparr>)\<rparr>"
  have dc: "gralloc_drm_bo_decref s1 b = gralloc_drm_bo_destroy ?t b"
    using decref_char[OF assms(2) b1] by simp
  have "gralloc_drm_bo_destroy ?t b = Inr (?t\<lparr>bos := (bos ?t)(b := None),
            handles := (if imported (?bo\<lparr>refcount := 0\<rparr>) \<noteq> 0
                        then (handles ?t)(handle (?bo\<lparr>refcount := 0\<rparr>) \<mapsto> (h1\<lparr>data_owner := pid, data := b\<rparr>)\<lparr>data_owner := 0, data := 0\<rparr>)
                        else (handles ?t)(handle (?bo\<lparr>refcount := 0\<rparr>) := None)),
            calls := calls ?t @ (if fb_id (?bo\<lparr>refcount := 0\<rparr>) \<noteq> 0 then [RmFB b (fb_id (?bo\<lparr>refcount := 0\<rparr>))] else []) @ [Free b]\<rparr>)"
    by (rule destroy_char[where d = d]) (simp_all add: assms(2) r)
  then show ?thesis unfolding dc by (simp add: r)
qed

section \<open>Registration on a cached object\<close>

lemma validate_found_iff:
  assumes "b \<noteq> 0"
  shows "validate_handle K t p 0 = Inr (b, t') \<longleftrightarrow>
     (p \<noteq> 0 \<and> gralloc_drm_handle K t p = Inr p \<and>
      (\<exists>h. handles t p = Some h \<and> data_owner h = fst (gralloc_drm_get_pid t) \<and> data h = b) \<and>
      t' = snd (gralloc_drm_get_pid t))"
  using assms
  by (auto simp: validate_handle_def gralloc_drm_handle_def deref_def split_beta
      split: if_splits option.splits)

lemma validate_found_any_ctx:
  assumes "validate_handle K t p 0 = Inr (b, t')" "b \<noteq> 0"
  shows "validate_handle K t p dp = Inr (b, t')"
proof -
  from assms validate_found_iff[OF assms(2), of K t p t']
  obtain h where h: "p \<noteq> 0" "gralloc_drm_handle K t p = Inr p" "handles t p = Some h"
    "data_owner h = fst (gralloc_drm_get_pid t)" "data h = b" "t' = snd (gralloc_drm_get_pid t)"
    by auto
  show ?thesis using validate_handle_cached[OF h(1-4), of dp] h(5,6) by simp
qed

lemma validate_found_bos_upd:
  assumes "validate_handle K t p 0 = Inr (b, t)" "b \<noteq> 0"
  shows "validate_handle K (t\<lparr>bos := X\<rparr>) p 0 = Inr (b, t\<lparr>bos := X\<rparr>)"
proof -
  from assms validate_found_iff[OF assms(2), of K t p t]
  obtain h where h: "p \<noteq> 0" "gralloc_drm_handle K t p = Inr p" "handles t p = Some h"
    "data_owner h = fst (gralloc_drm_get_pid t)" "data h = b" "t = snd (gralloc_drm_get_pid t)"
    by auto
  have g: "gralloc_drm_get_pid t = (data_owner h, t)" using h(4,6) by (metis prod.collapse)
  then have c: "gralloc_drm_pid t = data_owner h" "data_owner h = 0 \<longrightarrow> getpid t = 0"
    by (simp_all add: get_pid_fixed_iff)
  have g': "gralloc_drm_get_pid (t\<lparr>bos := X\<rparr>) = (data_owner h, t\<lparr>bos := X\<rparr>)"
    using c by (simp add: get_pid_fixed_iff)
  have wf: "gralloc_drm_handle K (t\<lparr>bos := X\<rparr>) p = Inr p"
    using h(1,2) by (simp add: gralloc_drm_handle_def)
  show ?thesis
    using validate_handle_cached[OF h(1) wf, of h 0] h(3,5) g' by simp
qed

lemma register_found:
  assumes "validate_handle K t p 0 = Inr (b, t')" "b \<noteq> 0" "bos t b = Some bo"
  shows "gralloc_drm_handle_register K t p dp =
     Inr (0, t'\<lparr>bos := (bos t)(b \<mapsto> bo\<lparr>refcount := refcount bo + 1\<rparr>)\<rparr>)"
proof -
  have t': "t' = snd (gralloc_drm_get_pid t)"
    using assms(1) validate_found_iff[OF assms(2), of K t p t'] by simp
  have "bos t' = bos t" by (simp add: t' get_pid_frame)
  then show ?thesis
    using validate_found_any_ctx[OF assms(1,2), of dp] assms(2,3)
    by (simp add: gralloc_drm_handle_register_def modify_bo_def deref_def)
qed

lemma unregister_found:
  assumes "validate_handle K t p 0 = Inr (b, t')" "b \<noteq> 0" "bos t b = Some bo" "refcount bo \<noteq> 1"
  shows "gralloc_drm_handle_unregister K t p =
     (if imported bo = 0
      then Inr (0, t'\<lparr>bos := (bos t)(b \<mapsto> bo\<lparr>refcount := refcount bo - 1\<rparr>)\<rparr>)
      else if refcount bo \<noteq> 2
      then Inr (0, t'\<lparr>bos := (bos t)(b \<mapsto> bo\<lparr>refcount := refcount bo - 2\<rparr>)\<rparr>)
      else (case gralloc_drm_bo_destroy (t'\<lparr>bos := (bos t)(b \<mapsto> bo\<lparr>refcount := 0\<rparr>)\<rparr>) b of
              Inl e \<Rightarrow> Inl e | Inr t2 \<Rightarrow> Inr (0, t2)))"
proof -
  have t': "t' = snd (gralloc_drm_get_pid t)"
    using assms(1) validate_found_iff[OF assms(2), of K t p t'] by simp
  have b': "bos t' = bos t" by (simp add: t' get_pid_frame)
  let ?t1 = "t'\<lparr>bos := (bos t)(b \<mapsto> bo\<lparr>refcount := refcount bo - 1\<rparr>)\<rparr>"
  have d1: "gralloc_drm_bo_decref t' b = Inr ?t1"
    using decref_char[OF assms(2), of t' bo] assms(3,4) b' by simp
  have d2: "gralloc_drm_bo_decref ?t1 b =
     (if refcount bo = 2
      then gralloc_drm_bo_destroy (t'\<lparr>bos := (bos t)(b \<mapsto> bo\<lparr>refcount := 0\<rparr>)\<rparr>) b
      else Inr (t'\<lparr>bos := (bos t)(b \<mapsto> bo\<lparr>refcount := refcount bo - 2\<rparr>)\<rparr>))"
  proof -
    have e: "refcount bo - 1 = 1 \<longleftrightarrow> refcount bo = 2" by auto
    have e2: "refcount bo - 1 - 1 = refcount bo - 2" by simp
    show ?thesis
      using decref_char[OF assms(2), of ?t1 "bo\<lparr>refcount := refcount bo - 1\<rparr>"]
      by (simp add: e e2)
  qed
  show ?thesis
    using assms(1,2) 
    by (simp add: gralloc_drm_handle_unregister_def d1 d2 deref_def)
qed

lemma validate_found_fixed:
  assumes "validate_handle K s p 0 = Inr (b, s')" "b \<noteq> 0"
  shows "validate_handle K s' p 0 = Inr (b, s')"
proof -
  from assms validate_found_iff[OF assms(2), of K s p s']
  obtain h where h: "p \<noteq> 0" "gralloc_drm_handle K s p = Inr p" "handles s p = Some h"
    "data_owner h = fst (gralloc_drm_get_pid s)" "data h = b" "s' = snd (gralloc_drm_get_pid s)"
    by auto
  have wf: "gralloc_drm_handle K s' p = Inr p"
    using h(1,2) by (simp add: gralloc_drm_handle_def h(6) get_pid_frame)
  have hs: "handles s' p = Some h" by (simp add: h get_pid_frame)
  show ?thesis
    using validate_handle_cached[OF h(1) wf hs, of 0] h(4,5,6) by (simp add: get_pid_idem)
qed

lemma register_n:
  assumes "validate_handle K t p 0 = Inr (b, t)" "b \<noteq> 0" "bos t b = Some bo"
  shows "repeat_call (\<lambda>u. gralloc_drm_handle_register K u p dp) n t =
     Inr (replicate n 0, t\<lparr>bos := (bos t)(b \<mapsto> bo\<lparr>refcount := refcount bo + of_nat n\<rparr>)\<rparr>)"
  using assms
proof (induction n arbitrary: t bo)
  case 0
  then have "(bos t)(b \<mapsto> bo) = bos t" by (simp add: map_upd_triv)
  then show ?case by simp
next
  case (Suc n)
  let ?bo1 = "bo\<lparr>refcount := refcount bo + 1\<rparr>"
  let ?t1 = "t\<lparr>bos := (bos t)(b \<mapsto> ?bo1)\<rparr>"
  have r: "gralloc_drm_handle_register K t p dp = Inr (0, ?t1)"
    using register_found[OF Suc.prems] .
  have v: "validate_handle K ?t1 p 0 = Inr (b, ?t1)"
    using validate_found_bos_upd[OF Suc.prems(1,2)] .
  have b1: "bos ?t1 b = Some ?bo1" by simp
  have eq: "?t1\<lparr>bos := (bos ?t1)(b \<mapsto> ?bo1\<lparr>refcount := refcount ?bo1 + of_nat n\<rparr>)\<rparr> =
     t\<lparr>bos := (bos t)(b \<mapsto> bo\<lparr>refcount := refcount bo + of_nat (Suc n)\<rparr>)\<rparr>"
    by (simp add: add.assoc)
  have ih: "repeat_call (\<lambda>u. gralloc_drm_handle_register K u p dp) n ?t1 =
     Inr (replicate n 0, t\<lparr>bos := (bos t)(b \<mapsto> bo\<lparr>refcount := refcount bo + of_nat (Suc n)\<rparr>)\<rparr>)"
    using Suc.IH[OF v Suc.prems(2) b1] unfolding eq .
  show ?case by (simp only: repeat_call.simps r ih sum.case prod.case replicate.simps)
qed

lemma unregister_n:
  assumes "validate_handle K t p 0 = Inr (b, t)" "b \<noteq> 0" "bos t b = Some bo"
    "imported bo = 0" "n < unat (refcount bo)"
  shows "repeat_call (\<lambda>u. gralloc_drm_handle_unregister K u p) n t =
     Inr (replicate n 0, t\<lparr>bos := (bos t)(b \<mapsto> bo\<lparr>refcount := refcount bo - of_nat n\<rparr>)\<rparr>)"
  using assms
proof (induction n arbitrary: t bo)
  case 0
  then have "(bos t)(b \<mapsto> bo) = bos t" by (simp add: map_upd_triv)
  then show ?case by simp
next
  case (Suc n)
  let ?bo1 = "bo\<lparr>refcount := refcount bo - 1\<rparr>"
  let ?t1 = "t\<lparr>bos := (bos t)(b \<mapsto> ?bo1)\<rparr>"
  from Suc.prems(5) have ne1: "refcount bo \<noteq> 1" by auto
  from Suc.prems(5) have ne0: "refcount bo \<noteq> 0" by auto
  have r: "gralloc_drm_handle_unregister K t p = Inr (0, ?t1)"
    using unregister_found[OF Suc.prems(1-3) ne1] Suc.prems(4) by simp
  have v: "validate_handle K ?t1 p 0 = Inr (b, ?t1)"
    using validate_found_bos_upd[OF Suc.prems(1,2)] .
  have b1: "bos ?t1 b = Some ?bo1" by simp
  have u: "unat (refcount bo - 1) = unat (refcount bo) - 1"
    using ne0 by (simp add: unat_minus_one)
  have lt: "n < unat (refcount ?bo1)" using Suc.prems(5) u by simp
  have eq: "?t1\<lparr>bos := (bos ?t1)(b \<mapsto> ?bo1\<lparr>refcount := refcount ?bo1 - of_nat n\<rparr>)\<rparr> =
     t\<lparr>bos := (bos t)(b \<mapsto> bo\<lparr>refcount := refcount bo - of_nat (Suc n)\<rparr>)\<rparr>"
    by (simp add: diff_diff_eq)
  have i1: "imported ?bo1 = 0" using Suc.prems(4) by simp
  have ih: "repeat_call (\<lambda>u. gralloc_drm_handle_unregister K u p) n ?t1 =
     Inr (replicate n 0, t\<lparr>bos := (bos t)(b \<mapsto> bo\<lparr>refcount := refcount bo - of_nat (Suc n)\<rparr>)\<rparr>)"
    using Suc.IH[OF v Suc.prems(2) b1 i1 lt] unfolding eq .
  show ?case by (simp only: repeat_call.simps r ih sum.case prod.case replicate.simps)
qed

lemma unregister_last_ref:
  assumes "validate_handle K t p 0 = Inr (b, t')" "b \<noteq> 0" "bos t b = Some bo" "refcount bo = 1"
    "drm bo \<noteq> 0" "drms t (drm bo) = Some d" "handle bo \<noteq> 0" "handles t (handle bo) = Some h"
  shows "gralloc_drm_handle_unregister K t p = Inl DanglingDeref"
proof -
  have t': "t' = snd (gralloc_drm_get_pid t)"
    using assms(1) validate_found_iff[OF assms(2), of K t p t'] by simp
  have fr: "bos t' = bos t" "handles t' = handles t" "drms t' = drms t"
    by (simp_all add: t' get_pid_frame)
  let ?t1 = "t'\<lparr>bos := (bos t')(b \<mapsto> bo\<lparr>refcount := 0\<rparr>)\<rparr>"
  have d1: "gralloc_drm_bo_decref t' b = gralloc_drm_bo_destroy ?t1 b"
    using decref_char[OF assms(2), of t' bo] assms(3,4) fr by simp
  have "\<exists>t2. gralloc_drm_bo_destroy ?t1 b = Inr t2 \<and> bos t2 b = None"
    using destroy_char[OF assms(2), of ?t1 "bo\<lparr>refcount := 0\<rparr>" d h] assms(5-8) fr by simp
  then obtain t2 where d2: "gralloc_drm_bo_destroy ?t1 b = Inr t2" "bos t2 b = None" by blast
  show ?thesis
    using assms(1,2) d1 d2 by (simp add: gralloc_drm_handle_unregister_def deref_def)
qed

lemma unregister_not_found:
  assumes "validate_handle K s p 0 = Inr (0, s')"
  shows "gralloc_drm_handle_unregister K s p = Inr (- EINVAL K, s')"
  using assms by (simp add: gralloc_drm_handle_unregister_def)

lemma validate_lookup_frame:
  assumes "validate_handle K s p 0 = Inr (b, s')"
  shows "handles s' = handles s \<and> bos s' = bos s \<and> calls s' = calls s \<and> drms s' = drms s"
proof -
  have "p = 0 \<or> handles s p \<noteq> None"
  proof (cases "p = 0")
    case False
    then show ?thesis
      using assms by (cases "handles s p") (simp_all add: validate_handle_def gralloc_drm_handle_def)
  qed simp
  from validate_handle_lookup[OF this, of K] assms show ?thesis
    by (auto simp: validate_handle_def gralloc_drm_handle_def deref_def split_beta get_pid_frame
        split: if_splits option.splits)
qed

lemma unat_refcount_add:
  fixes r :: cint
  assumes "unat r + N < 2 ^ 32"
  shows "unat (r + of_nat N) = unat r + N"
proof -
  have n: "N < 2 ^ 32" using assms by simp
  have "unat (of_nat N :: cint) = N" using n by (simp add: unat_of_nat take_bit_nat_eq_self)
  then show ?thesis using assms unat_add_lem[of r "of_nat N :: cint"] by simp
qed

lemma roundtrip_local:
  assumes "validate_handle K s p 0 = Inr (b, s')" "b \<noteq> 0" "bos s b = Some bo"
    "imported bo = 0" "refcount bo \<noteq> 0" "unat (refcount bo) + N < 2 ^ 32" "1 \<le> N"
  shows "\<exists>t. repeat_call (\<lambda>u. gralloc_drm_handle_register K u p dp) N s = Inr (replicate N 0, t) \<and>
     bos t b = Some (bo\<lparr>refcount := refcount bo + of_nat N\<rparr>) \<and>
     repeat_call (\<lambda>u. gralloc_drm_handle_unregister K u p) N t = Inr (replicate N 0, s') \<and>
     bos s' b = Some bo"
proof -
  have fr: "bos s' = bos s" using validate_lookup_frame[OF assms(1)] by simp
  have v': "validate_handle K s' p 0 = Inr (b, s')" using validate_found_fixed[OF assms(1,2)] .
  have bs': "bos s' b = Some bo" using fr assms(3) by simp
  let ?f = "\<lambda>u. gralloc_drm_handle_register K u p dp"
  have r0: "?f s = ?f s'"
    using register_found[OF assms(1-3), of dp] register_found[OF v' assms(2) bs', of dp] fr
    by simp
  obtain m where N: "N = Suc m" using assms(7) by (cases N) auto
  have "repeat_call ?f N s = repeat_call ?f N s'"
    unfolding N repeat_call.simps r0 ..
  let ?boN = "bo\<lparr>refcount := refcount bo + of_nat N\<rparr>"
  let ?t = "s'\<lparr>bos := (bos s')(b \<mapsto> ?boN)\<rparr>"
  have reg: "repeat_call ?f N s = Inr (replicate N 0, ?t)"
    using register_n[OF v' assms(2) bs', of dp N] \<open>repeat_call ?f N s = repeat_call ?f N s'\<close>
    by simp
  have vt: "validate_handle K ?t p 0 = Inr (b, ?t)" using validate_found_bos_upd[OF v' assms(2)] .
  have bt: "bos ?t b = Some ?boN" by simp
  have lt: "N < unat (refcount ?boN)"
    using unat_refcount_add[OF assms(6)] assms(5) by (simp add: unat_gt_0)
  have eq: "?t\<lparr>bos := (bos ?t)(b \<mapsto> ?boN\<lparr>refcount := refcount ?boN - of_nat N\<rparr>)\<rparr> = s'"
  proof -
    have "(bos s')(b \<mapsto> bo) = bos s'" using bs' by (simp add: map_upd_triv)
    then show ?thesis by simp
  qed
  have unreg: "repeat_call (\<lambda>u. gralloc_drm_handle_unregister K u p) N ?t = Inr (replicate N 0, s')"
    using unregister_n[OF vt assms(2) bt _ lt] assms(4) unfolding eq by simp
  show ?thesis using reg bt unreg bs' by blast
qed

lemma unregister_imported_last:
  assumes "validate_handle K s p 0 = Inr (b, s')" "b \<noteq> 0" "bos s b = Some bo"
    "imported bo \<noteq> 0" "refcount bo = 2" "handle bo = p" "drm bo \<noteq> 0" "drms s (drm bo) = Some d"
  shows "\<exists>t. gralloc_drm_handle_unregister K s p = Inr (0, t) \<and> bos t = (bos s)(b := None) \<and>
     calls t = calls s @ (if fb_id bo \<noteq> 0 then [RmFB b (fb_id bo)] else []) @ [Free b] \<and>
     (\<exists>t'. gralloc_drm_handle_unregister K t p = Inr (- EINVAL K, t') \<and>
           bos t' = bos t \<and> handles t' = handles t \<and> calls t' = calls t)"
proof -
  from assms validate_found_iff[OF assms(2), of K s p s']
  obtain h where h: "p \<noteq> 0" "gralloc_drm_handle K s p = Inr p" "handles s p = Some h"
    "data_owner h = fst (gralloc_drm_get_pid s)" "data h = b" "s' = snd (gralloc_drm_get_pid s)"
    by auto
  have fr: "handles s' = handles s" "bos s' = bos s" "calls s' = calls s" "drms s' = drms s"
    using validate_lookup_frame[OF assms(1)] by simp_all
  let ?m = "s'\<lparr>bos := (bos s)(b \<mapsto> bo\<lparr>refcount := 0\<rparr>)\<rparr>"
  let ?t = "?m\<lparr>bos := (bos ?m)(b := None),
            handles := (if imported (bo\<lparr>refcount := 0\<rparr>) \<noteq> 0
                        then (handles ?m)(handle (bo\<lparr>refcount := 0\<rparr>) \<mapsto> h\<lparr>data_owner := 0, data := 0\<rparr>)
                        else (handles ?m)(handle (bo\<lparr>refcount := 0\<rparr>) := None)),
            calls := calls ?m @ (if fb_id (bo\<lparr>refcount := 0\<rparr>) \<noteq> 0
                 then [RmFB b (fb_id (bo\<lparr>refcount := 0\<rparr>))] else []) @ [Free b]\<rparr>"
  have d: "gralloc_drm_bo_destroy ?m b = Inr ?t"
    by (rule destroy_char[where d = d]) (simp_all add: assms(2-8) h(1-5) fr)
  have ne1: "refcount bo \<noteq> 1" using assms(5) by simp
  have u: "gralloc_drm_handle_unregister K s p = Inr (0, ?t)"
    using unregister_found[OF assms(1-3) ne1] assms(4,5) d by simp
  have ht: "handles ?t p = Some (h\<lparr>data_owner := 0, data := 0\<rparr>)"
    using assms(4,6) by simp
  from validate_handle_lookup[of p ?t K] ht
  obtain b' t' where v: "validate_handle K ?t p 0 = Inr (b', t')"
    "handles t' = handles ?t" "bos t' = bos ?t" "calls t' = calls ?t"
    "b' = 0 \<or> (\<exists>h'. handles ?t p = Some h' \<and> b' = data h')"
    by auto
  have b0: "b' = 0" using v(5) ht by auto
  have u2: "gralloc_drm_handle_unregister K ?t p = Inr (- EINVAL K, t')"
    using unregister_not_found[of K ?t p t'] v(1) b0 by simp
  have bt: "bos ?t = (bos s)(b := None)" by simp
  have ct: "calls ?t = calls s @ (if fb_id bo \<noteq> 0 then [RmFB b (fb_id bo)] else []) @ [Free b]"
    by (simp add: fr)
  show ?thesis
    using u bt ct u2 v(2-4) by blast
qed

section \<open>Claims\<close>

text \<open>
  C10.  For every input that fails the handle's structural/magic check (a null pointer or a
  malformed handle, for which \<open>gralloc_drm_handle\<close> yields null) \<open>gralloc_drm_get_gem_handle\<close>
  returns 0 and \<open>gralloc_drm_get_prime_fd\<close> returns -1; for every well-formed handle they
  return the handle's stored \<open>name\<close> and \<open>prime_fd\<close>.  Neither query returns a state: they
  have no side effect.
\<close>

theorem query_sentinels:
  "(gralloc_drm_handle K s p = Inr 0 \<longrightarrow>
      gralloc_drm_get_gem_handle K s p = Inr 0 \<and> gralloc_drm_get_prime_fd K s p = Inr (- 1)) \<and>
   (p \<noteq> 0 \<and> gralloc_drm_handle K s p = Inr p \<longrightarrow>
      (\<exists>h. handles s p = Some h \<and>
           gralloc_drm_get_gem_handle K s p = Inr (name h) \<and>
           gralloc_drm_get_prime_fd K s p = Inr (prime_fd h)))"
  by (auto simp: gralloc_drm_get_gem_handle_def gralloc_drm_get_prime_fd_def
      gralloc_drm_handle_def deref_def split: option.splits if_splits)

theorem query_sentinels_witness:
  "gralloc_drm_handle android_consts render_state 0 = Inr 0 \<and>
   gralloc_drm_get_gem_handle android_consts render_state 0 = Inr 0 \<and>
   gralloc_drm_get_prime_fd android_consts render_state 0 = Inr (- 1) \<and>
   gralloc_drm_handle android_consts
     (remote_state\<lparr>handles := [3 \<mapsto> remote_handle\<lparr>magic := 0\<rparr>]\<rparr>) 3 = Inr 0 \<and>
   gralloc_drm_get_gem_handle android_consts
     (remote_state\<lparr>handles := [3 \<mapsto> remote_handle\<lparr>magic := 0\<rparr>]\<rparr>) 3 = Inr 0 \<and>
   gralloc_drm_get_prime_fd android_consts
     (remote_state\<lparr>handles := [3 \<mapsto> remote_handle\<lparr>magic := 0\<rparr>]\<rparr>) 3 = Inr (- 1) \<and>
   gralloc_drm_handle android_consts remote_state 3 = Inr 3 \<and>
   gralloc_drm_get_gem_handle android_consts remote_state 3 = Inr 1 \<and>
   gralloc_drm_get_prime_fd android_consts remote_state 3 = Inr 9"
  using query_sentinels[of android_consts render_state 0]
    query_sentinels[of android_consts
      "remote_state\<lparr>handles := [3 \<mapsto> remote_handle\<lparr>magic := 0\<rparr>]\<rparr>" 3]
    query_sentinels[of android_consts remote_state 3]
  by (simp add: example_defs gralloc_drm_handle_def)

text \<open>
  C9.  \<open>gralloc_drm_resolve_format\<close> reads \<open>handle->data\<close> and \<open>bo->drm\<close> before its test
  of \<open>handle\<close>: for every input that fails the structural/magic check the function
  dereferences the null pointer; and whenever it completes, the handle had passed the
  check, so the test never takes its null branch.
\<close>

theorem resolve_format_null_deref:
  "(gralloc_drm_handle K s p = Inr 0 \<longrightarrow> gralloc_drm_resolve_format K s p = Inl NullDeref) \<and>
   (gralloc_drm_resolve_format K s p = Inr r \<longrightarrow> gralloc_drm_handle K s p \<noteq> Inr 0)"
  by (auto simp: gralloc_drm_resolve_format_def deref_def split: sum.splits option.splits if_splits)

theorem resolve_format_null_deref_witness:
  "gralloc_drm_handle android_consts local_state 0 = Inr 0 \<and>
   gralloc_drm_resolve_format android_consts local_state 0 = Inl NullDeref \<and>
   gralloc_drm_handle android_consts
     (remote_state\<lparr>handles := [3 \<mapsto> remote_handle\<lparr>magic := 0\<rparr>]\<rparr>) 3 = Inr 0 \<and>
   gralloc_drm_resolve_format android_consts
     (remote_state\<lparr>handles := [3 \<mapsto> remote_handle\<lparr>magic := 0\<rparr>]\<rparr>) 3 = Inl NullDeref \<and>
   gralloc_drm_resolve_format android_consts local_state 3 = Inr (None, local_state) \<and>
   gralloc_drm_handle android_consts local_state 3 \<noteq> Inr 0"
  using resolve_format_null_deref[of android_consts local_state 0]
    resolve_format_null_deref[of android_consts
      "remote_state\<lparr>handles := [3 \<mapsto> remote_handle\<lparr>magic := 0\<rparr>]\<rparr>" 3]
    resolve_format_null_deref[of android_consts local_state 3 "(None, local_state)"]
  by (simp add: example_defs gralloc_drm_handle_def gralloc_drm_resolve_format_def deref_def)

text \<open>
  C5.  For a live object, \<open>gralloc_drm_bo_unlock\<close> with \<open>lock_count = 0\<close> returns the state
  unchanged (no \<open>unmap\<close> call); with a non-zero \<open>lock_count\<close> it calls the backend's
  \<open>unmap\<close> if and only if \<open>locked_for\<close> contains a CPU read/write bit, decrements
  \<open>lock_count\<close> by exactly one, and resets \<open>locked_for\<close> to 0 exactly when the count
  reaches zero.  Nothing else changes.
\<close>

theorem unlock_behaviour:
  assumes "b \<noteq> 0" "bos s b = Some bo"
    "locked_for bo AND sw_mask K \<noteq> 0 \<longrightarrow> drm bo \<noteq> 0 \<and> drms s (drm bo) \<noteq> None"
  shows "(lock_count bo = 0 \<longrightarrow> gralloc_drm_bo_unlock K s b = Inr s) \<and>
   (lock_count bo \<noteq> 0 \<longrightarrow>
      gralloc_drm_bo_unlock K s b =
        Inr (s\<lparr>bos := (bos s)(b \<mapsto> bo\<lparr>lock_count := lock_count bo - 1,
                 locked_for := (if lock_count bo - 1 = 0 then 0 else locked_for bo)\<rparr>),
               calls := calls s @
                 (if locked_for bo AND sw_mask K \<noteq> 0 then [Unmap b] else [])\<rparr>))"
  using unlock_char[OF assms] by simp

theorem unlock_behaviour_witness:
  "gralloc_drm_bo_unlock android_consts local_state 4 = Inr local_state \<and>
   gralloc_drm_bo_unlock android_consts locked_state 4 =
     Inr (locked_state\<lparr>bos := (bos locked_state)(4 \<mapsto>
            local_bo\<lparr>lock_count := 0, locked_for := 0\<rparr>),
          calls := calls locked_state @ [Unmap 4]\<rparr>) \<and>
   gralloc_drm_bo_unlock android_consts
       (locked_state\<lparr>bos := [4 \<mapsto> local_bo\<lparr>lock_count := 2, locked_for := 0x100\<rparr>]\<rparr>) 4 =
     Inr (locked_state\<lparr>bos := [4 \<mapsto> local_bo\<lparr>lock_count := 1, locked_for := 0x100\<rparr>]\<rparr>)"
  using unlock_behaviour[of 4 local_state local_bo android_consts]
    unlock_behaviour[of 4 locked_state "local_bo\<lparr>lock_count := 1, locked_for := 0x3\<rparr>"
      android_consts]
    unlock_behaviour[of 4
      "locked_state\<lparr>bos := [4 \<mapsto> local_bo\<lparr>lock_count := 2, locked_for := 0x100\<rparr>]\<rparr>"
      "local_bo\<lparr>lock_count := 2, locked_for := 0x100\<rparr>" android_consts]
  by (simp add: example_defs sw_mask_def)



text \<open>
  C8.  When \<open>validate_handle\<close> with a context takes the import path for a well-formed
  handle owned by another process and the import fails (the handle has no backend name, or
  the backend's \<open>alloc\<close> returns null), the handle's process-local fields are overwritten
  all the same: \<open>data_owner\<close> becomes the current process id and \<open>data\<close> null.  From
  then on every \<open>validate_handle\<close> and every \<open>gralloc_drm_handle_register\<close> on that
  handle, with any context and any number of times, returns failure (\<open>-EINVAL\<close> for
  register) and leaves the state, the call trace included, as it is: the backend import
  is not tried again.
\<close>

theorem failed_import_is_cached:
  assumes "p \<noteq> 0" "dp \<noteq> 0" "gralloc_drm_handle K s p = Inr p" "handles s p = Some h"
    "data_owner h \<noteq> fst (gralloc_drm_get_pid s)"
    "validate_handle K s p dp = Inr (0, s')"
  shows "handles s' p = Some (h\<lparr>data_owner := fst (gralloc_drm_get_pid s), data := 0\<rparr>) \<and>
         fst (gralloc_drm_get_pid s') = fst (gralloc_drm_get_pid s) \<and>
         calls s' = calls s @ (if name h \<noteq> 0 then [Alloc p 0] else []) \<and>
         validate_handle K s' p dp' = Inr (0, s') \<and>
         gralloc_drm_handle_register K s' p dp' = Inr (- EINVAL K, s') \<and>
         repeat_call (\<lambda>t. gralloc_drm_handle_register K t p dp') n s' =
           Inr (replicate n (- EINVAL K), s')"
proof -
  let ?h' = "h\<lparr>data_owner := fst (gralloc_drm_get_pid s), data := 0\<rparr>"
  note F = validate_import_fails[OF assms]
  have h': "handles s' p = Some ?h'" using F by simp
  have wf: "gralloc_drm_handle K s' p = Inr p"
    using assms(1,3,4) h' by (auto simp: gralloc_drm_handle_def split: if_splits)
  have g: "gralloc_drm_get_pid s' = (fst (gralloc_drm_get_pid s), s')" using F by simp
  have v: "validate_handle K s' p dp' = Inr (0, s')"
    using validate_handle_cached[OF assms(1) wf h', of dp'] g by simp
  have r: "gralloc_drm_handle_register K s' p dp' = Inr (- EINVAL K, s')"
    by (simp add: gralloc_drm_handle_register_def v)
  show ?thesis
    using h' g v r F
      repeat_call_fixed[of "\<lambda>t. gralloc_drm_handle_register K t p dp'", OF r]
    by simp
qed

theorem failed_import_is_cached_witness:
  "validate_handle android_consts remote_state 3 2 = Inr (0, failed_import_state) \<and>
   handles failed_import_state 3 = Some (remote_handle\<lparr>data_owner := 100, data := 0\<rparr>) \<and>
   calls failed_import_state = [Alloc 3 0] \<and>
   validate_handle android_consts failed_import_state 3 1 = Inr (0, failed_import_state) \<and>
   gralloc_drm_handle_register android_consts failed_import_state 3 1 =
     Inr (- 22, failed_import_state) \<and>
   repeat_call (\<lambda>t. gralloc_drm_handle_register android_consts t 3 1) 5 failed_import_state =
     Inr (replicate 5 (- 22), failed_import_state) \<and>
   validate_handle android_consts unnamed_state 3 1 = Inr (0, failed_unnamed_state) \<and>
   calls failed_unnamed_state = [] \<and>
   gralloc_drm_handle_register android_consts failed_unnamed_state 3 1 =
     Inr (- 22, failed_unnamed_state)"
proof -
  have v: "validate_handle android_consts remote_state 3 2 = Inr (0, failed_import_state)"
    by (simp add: example_defs operation_defs)
  have w: "gralloc_drm_handle android_consts remote_state 3 = Inr 3"
    by (simp add: example_defs gralloc_drm_handle_def)
  have o: "data_owner remote_handle \<noteq> fst (gralloc_drm_get_pid remote_state)"
    by (simp add: example_defs gralloc_drm_get_pid_def)
  have h: "handles remote_state 3 = Some remote_handle" by (simp add: example_defs)
  have e: "EINVAL android_consts = 22" by (simp add: android_consts_def)
  have v': "validate_handle android_consts unnamed_state 3 1 = Inr (0, failed_unnamed_state)"
    by (simp add: example_defs operation_defs)
  have w': "gralloc_drm_handle android_consts unnamed_state 3 = Inr 3"
    by (simp add: example_defs gralloc_drm_handle_def)
  have o': "data_owner (remote_handle\<lparr>name := 0\<rparr>) \<noteq> fst (gralloc_drm_get_pid unnamed_state)"
    by (simp add: example_defs gralloc_drm_get_pid_def)
  have h': "handles unnamed_state 3 = Some (remote_handle\<lparr>name := 0\<rparr>)"
    by (simp add: example_defs)
  have n: "name (remote_handle\<lparr>name := 0\<rparr>) = 0" by simp
  have A: "handles failed_import_state 3 = Some (remote_handle\<lparr>data_owner := 100, data := 0\<rparr>) \<and>
     calls failed_import_state = [Alloc 3 0] \<and>
     validate_handle android_consts failed_import_state 3 1 = Inr (0, failed_import_state) \<and>
     gralloc_drm_handle_register android_consts failed_import_state 3 1 =
       Inr (- 22, failed_import_state) \<and>
     repeat_call (\<lambda>t. gralloc_drm_handle_register android_consts t 3 1) 5 failed_import_state =
       Inr (replicate 5 (- 22), failed_import_state)"
    using failed_import_is_cached[OF _ _ w h o v, of 1 5] e
    by (simp add: example_defs)
  have B: "calls failed_unnamed_state = [] \<and>
     gralloc_drm_handle_register android_consts failed_unnamed_state 3 1 =
       Inr (- 22, failed_unnamed_state)"
    using failed_import_is_cached[OF _ _ w' h' o' v', of 1 0] e n
    by (simp add: example_defs)
  show ?thesis using v v' A B by simp
qed

text \<open>
  C3, as stated, fails: \<open>map\<close> is not called only when the object goes from no mapped
  usage to some mapped usage, and \<open>unmap\<close> is not called only when the last lock of a
  mapped usage is released.  The object is locked twice for \<open>SW_READ_OFTEN\<close> and unlocked
  twice: the second lock, with the mapped usage already locked, calls \<open>map\<close> again; the
  first unlock, which leaves one lock in place, calls \<open>unmap\<close>; and the last unlock calls
  \<open>unmap\<close> a second time.
\<close>

theorem nested_lock_counterexample:
  "gralloc_drm_bo_lock android_consts local_state 4 0x3 0 0 64 64 =
     Inr (0, Some 4096, locked_state) \<and>
   calls locked_state = [Alloc 3 4, Map 4 0 0 64 64 0] \<and>
   gralloc_drm_bo_lock android_consts locked_state 4 0x3 0 0 64 64 =
     Inr (0, Some 4096, twice_locked_state) \<and>
   calls twice_locked_state = [Alloc 3 4, Map 4 0 0 64 64 0, Map 4 0 0 64 64 0] \<and>
   gralloc_drm_bo_unlock android_consts twice_locked_state 4 =
     Inr (locked_state\<lparr>calls := [Alloc 3 4, Map 4 0 0 64 64 0, Map 4 0 0 64 64 0, Unmap 4]\<rparr>) \<and>
   bos locked_state 4 = Some (local_bo\<lparr>lock_count := 1, locked_for := 0x3\<rparr>) \<and>
   gralloc_drm_bo_unlock android_consts
     (locked_state\<lparr>calls := [Alloc 3 4, Map 4 0 0 64 64 0, Map 4 0 0 64 64 0, Unmap 4]\<rparr>) 4 =
     Inr (local_state\<lparr>calls := [Alloc 3 4, Map 4 0 0 64 64 0, Map 4 0 0 64 64 0, Unmap 4,
                                   Unmap 4]\<rparr>)"
  by (simp add: example_defs operation_defs)

text \<open>
  C3, amended.  For a live object with a live handle and context (and \<open>EINVAL\<close> not 0): a
  successful \<open>gralloc_drm_bo_lock\<close> whose usage, unioned with the usage already locked, has
  no CPU read/write bit makes no backend call; every successful lock whose union has a CPU
  read/write bit calls the backend's \<open>map\<close> exactly once in that call, whether or not a
  mapped usage was locked before.  Every \<open>gralloc_drm_bo_unlock\<close> of a locked object whose
  \<open>locked_for\<close> has a CPU read/write bit calls \<open>unmap\<close> exactly once and releases one
  lock, whatever the number of locks still held (so \<open>unmap\<close> is called once for each lock
  released, the last one included, which also resets \<open>locked_for\<close>); an unlock of an
  object that is not locked, or whose \<open>locked_for\<close> has no CPU read/write bit, makes no
  backend call.
\<close>

theorem lock_unlock_backend_calls:
  assumes "b \<noteq> 0" "bos s b = Some bo" "handle bo \<noteq> 0" "handles s (handle bo) = Some hnd"
    "drm bo \<noteq> 0" "drms s (drm bo) = Some d" "EINVAL K \<noteq> 0"
  shows "(gralloc_drm_bo_lock K s b u x y w h = Inr (0, a, s') \<and>
          (u OR locked_for bo) AND sw_mask K = 0 \<longrightarrow> calls s' = calls s) \<and>
         (gralloc_drm_bo_lock K s b u x y w h = Inr (0, a, s') \<and>
          (u OR locked_for bo) AND sw_mask K \<noteq> 0 \<longrightarrow>
            calls s' = calls s @
              [Map b x y w h
                 (if (u OR locked_for bo) AND GRALLOC_USAGE_SW_WRITE_MASK K \<noteq> 0 then 1 else 0)]) \<and>
         (lock_count bo \<noteq> 0 \<and> locked_for bo AND sw_mask K \<noteq> 0 \<longrightarrow>
            gralloc_drm_bo_unlock K s b =
              Inr (s\<lparr>bos := (bos s)(b \<mapsto> bo\<lparr>lock_count := lock_count bo - 1,
                       locked_for := (if lock_count bo - 1 = 0 then 0 else locked_for bo)\<rparr>),
                     calls := calls s @ [Unmap b]\<rparr>)) \<and>
         (lock_count bo \<noteq> 0 \<and> locked_for bo AND sw_mask K = 0 \<longrightarrow>
            gralloc_drm_bo_unlock K s b =
              Inr (s\<lparr>bos := (bos s)(b \<mapsto> bo\<lparr>lock_count := lock_count bo - 1,
                       locked_for := (if lock_count bo - 1 = 0 then 0 else locked_for bo)\<rparr>)\<rparr>)) \<and>
         (lock_count bo = 0 \<longrightarrow> gralloc_drm_bo_unlock K s b = Inr s)"
proof -
  have u: "locked_for bo AND sw_mask K \<noteq> 0 \<longrightarrow> drm bo \<noteq> 0 \<and> drms s (drm bo) \<noteq> None"
    using assms by simp
  have L: "(gralloc_drm_bo_lock K s b u x y w h = Inr (0, a, s') \<and>
          (u OR locked_for bo) AND sw_mask K = 0 \<longrightarrow> calls s' = calls s) \<and>
         (gralloc_drm_bo_lock K s b u x y w h = Inr (0, a, s') \<and>
          (u OR locked_for bo) AND sw_mask K \<noteq> 0 \<longrightarrow>
            calls s' = calls s @
              [Map b x y w h
                 (if (u OR locked_for bo) AND GRALLOC_USAGE_SW_WRITE_MASK K \<noteq> 0 then 1 else 0)])"
    using lock_char[OF assms(1-6), of K u x y w h] assms(7)
    by (auto simp: Let_def split: if_splits)
  have U: "(lock_count bo \<noteq> 0 \<and> locked_for bo AND sw_mask K \<noteq> 0 \<longrightarrow>
            gralloc_drm_bo_unlock K s b =
              Inr (s\<lparr>bos := (bos s)(b \<mapsto> bo\<lparr>lock_count := lock_count bo - 1,
                       locked_for := (if lock_count bo - 1 = 0 then 0 else locked_for bo)\<rparr>),
                     calls := calls s @ [Unmap b]\<rparr>)) \<and>
         (lock_count bo \<noteq> 0 \<and> locked_for bo AND sw_mask K = 0 \<longrightarrow>
            gralloc_drm_bo_unlock K s b =
              Inr (s\<lparr>bos := (bos s)(b \<mapsto> bo\<lparr>lock_count := lock_count bo - 1,
                       locked_for := (if lock_count bo - 1 = 0 then 0 else locked_for bo)\<rparr>)\<rparr>)) \<and>
         (lock_count bo = 0 \<longrightarrow> gralloc_drm_bo_unlock K s b = Inr s)"
    using unlock_char[OF assms(1,2) u] by simp
  show ?thesis using L U by blast
qed

theorem lock_unlock_backend_calls_witness:
  "gralloc_drm_bo_lock android_consts local_state 4 0x100 0 0 64 64 =
     Inr (0, None, local_state\<lparr>bos := [4 \<mapsto> local_bo\<lparr>lock_count := 1, locked_for := 0x100\<rparr>]\<rparr>) \<and>
   (0x100 OR locked_for local_bo) AND sw_mask android_consts = 0 \<and>
   calls (local_state\<lparr>bos := [4 \<mapsto> local_bo\<lparr>lock_count := 1, locked_for := 0x100\<rparr>]\<rparr>) =
     calls local_state \<and>
   gralloc_drm_bo_lock android_consts local_state 4 0x3 0 0 64 64 =
     Inr (0, Some 4096, locked_state) \<and>
   (0x3 OR locked_for local_bo) AND sw_mask android_consts \<noteq> 0 \<and>
   calls locked_state = calls local_state @ [Map 4 0 0 64 64 0] \<and>
   gralloc_drm_bo_lock android_consts locked_state 4 0x3 0 0 64 64 =
     Inr (0, Some 4096, twice_locked_state) \<and>
   calls twice_locked_state = calls locked_state @ [Map 4 0 0 64 64 0] \<and>
   gralloc_drm_bo_unlock android_consts twice_locked_state 4 =
     Inr (twice_locked_state\<lparr>bos := (bos twice_locked_state)(4 \<mapsto>
            local_bo\<lparr>lock_count := 1, locked_for := 0x3\<rparr>),
          calls := calls twice_locked_state @ [Unmap 4]\<rparr>) \<and>
   gralloc_drm_bo_unlock android_consts locked_state 4 =
     Inr (locked_state\<lparr>bos := (bos locked_state)(4 \<mapsto>
            local_bo\<lparr>lock_count := 0, locked_for := 0\<rparr>),
          calls := calls locked_state @ [Unmap 4]\<rparr>) \<and>
   gralloc_drm_bo_unlock android_consts
       (local_state\<lparr>bos := [4 \<mapsto> local_bo\<lparr>lock_count := 2, locked_for := 0x100\<rparr>]\<rparr>) 4 =
     Inr (local_state\<lparr>bos := [4 \<mapsto> local_bo\<lparr>lock_count := 1, locked_for := 0x100\<rparr>]\<rparr>) \<and>
   gralloc_drm_bo_unlock android_consts local_state 4 = Inr local_state"
proof -
  note T = lock_unlock_backend_calls
  note small = local_bo_def calloc_bo_def
  have four: "(4::nat) \<noteq> 0" by simp
  have e: "EINVAL android_consts \<noteq> 0" by (simp add: android_consts_def)
  have l1: "gralloc_drm_bo_lock android_consts local_state 4 0x100 0 0 64 64 =
     Inr (0, None, local_state\<lparr>bos := [4 \<mapsto> local_bo\<lparr>lock_count := 1, locked_for := 0x100\<rparr>]\<rparr>)"
    by (simp add: example_defs operation_defs)
  have l2: "gralloc_drm_bo_lock android_consts local_state 4 0x3 0 0 64 64 =
     Inr (0, Some 4096, locked_state)"
    by (simp add: example_defs operation_defs)
  have l3: "gralloc_drm_bo_lock android_consts locked_state 4 0x3 0 0 64 64 =
     Inr (0, Some 4096, twice_locked_state)"
    by (simp add: example_defs operation_defs)
  have m1: "(0x100 OR locked_for local_bo) AND sw_mask android_consts = 0"
    by (simp add: example_defs sw_mask_def)
  have m2: "(0x3 OR locked_for local_bo) AND sw_mask android_consts \<noteq> 0"
    by (simp add: example_defs sw_mask_def)
  have m3: "(0x3 OR locked_for (local_bo\<lparr>lock_count := 1, locked_for := 0x3\<rparr>)) AND
      sw_mask android_consts \<noteq> 0"
    by (simp add: example_defs sw_mask_def)
  have w2: "\<not> (0x3 OR locked_for local_bo) AND GRALLOC_USAGE_SW_WRITE_MASK android_consts \<noteq> 0"
    by (simp add: example_defs)
  have w3: "\<not> (0x3 OR locked_for (local_bo\<lparr>lock_count := 1, locked_for := 0x3\<rparr>)) AND
      GRALLOC_USAGE_SW_WRITE_MASK android_consts \<noteq> 0"
    by (simp add: example_defs)
  have live: "bos local_state 4 = Some local_bo" "handle local_bo \<noteq> 0"
    "handles local_state (handle local_bo) = Some local_handle" "drm local_bo \<noteq> 0"
    "drms local_state (drm local_bo) = Some \<lparr>fd = 3, drv = test_drv\<rparr>"
    by (simp_all add: example_defs)
  have live1: "bos locked_state 4 = Some (local_bo\<lparr>lock_count := 1, locked_for := 0x3\<rparr>)"
    "handle (local_bo\<lparr>lock_count := 1, locked_for := 0x3\<rparr>) \<noteq> 0"
    "handles locked_state (handle (local_bo\<lparr>lock_count := 1, locked_for := 0x3\<rparr>)) =
       Some local_handle"
    "drm (local_bo\<lparr>lock_count := 1, locked_for := 0x3\<rparr>) \<noteq> 0"
    "drms locked_state (drm (local_bo\<lparr>lock_count := 1, locked_for := 0x3\<rparr>)) =
       Some \<lparr>fd = 3, drv = test_drv\<rparr>"
    by (simp_all add: example_defs)
  have live2: "bos twice_locked_state 4 = Some (local_bo\<lparr>lock_count := 2, locked_for := 0x3\<rparr>)"
    "handle (local_bo\<lparr>lock_count := 2, locked_for := 0x3\<rparr>) \<noteq> 0"
    "handles twice_locked_state (handle (local_bo\<lparr>lock_count := 2, locked_for := 0x3\<rparr>)) =
       Some local_handle"
    "drm (local_bo\<lparr>lock_count := 2, locked_for := 0x3\<rparr>) \<noteq> 0"
    "drms twice_locked_state (drm (local_bo\<lparr>lock_count := 2, locked_for := 0x3\<rparr>)) =
       Some \<lparr>fd = 3, drv = test_drv\<rparr>"
    by (simp_all add: example_defs)
  have liveh: "bos (local_state\<lparr>bos := [4 \<mapsto> local_bo\<lparr>lock_count := 2, locked_for := 0x100\<rparr>]\<rparr>) 4 =
       Some (local_bo\<lparr>lock_count := 2, locked_for := 0x100\<rparr>)"
    "handle (local_bo\<lparr>lock_count := 2, locked_for := 0x100\<rparr>) \<noteq> 0"
    "handles (local_state\<lparr>bos := [4 \<mapsto> local_bo\<lparr>lock_count := 2, locked_for := 0x100\<rparr>]\<rparr>)
       (handle (local_bo\<lparr>lock_count := 2, locked_for := 0x100\<rparr>)) = Some local_handle"
    "drm (local_bo\<lparr>lock_count := 2, locked_for := 0x100\<rparr>) \<noteq> 0"
    "drms (local_state\<lparr>bos := [4 \<mapsto> local_bo\<lparr>lock_count := 2, locked_for := 0x100\<rparr>]\<rparr>)
       (drm (local_bo\<lparr>lock_count := 2, locked_for := 0x100\<rparr>)) =
       Some \<lparr>fd = 3, drv = test_drv\<rparr>"
    by (simp_all add: example_defs)
  have c1: "calls (local_state\<lparr>bos := [4 \<mapsto> local_bo\<lparr>lock_count := 1, locked_for := 0x100\<rparr>]\<rparr>) =
     calls local_state"
    using T[OF four live e, where u = "0x100" and x = 0 and y = 0 and w = 64 and h = 64,
        THEN conjunct1, rule_format, OF conjI[OF l1 m1]] .
  have c2: "calls locked_state = calls local_state @ [Map 4 0 0 64 64 0]"
    using T[OF four live e, where u = "0x3" and x = 0 and y = 0 and w = 64 and h = 64,
        THEN conjunct2, THEN conjunct1, rule_format, OF conjI[OF l2 m2]] w2 by simp
  have c3: "calls twice_locked_state = calls locked_state @ [Map 4 0 0 64 64 0]"
    using T[OF four live1 e, where u = "0x3" and x = 0 and y = 0 and w = 64 and h = 64,
        THEN conjunct2, THEN conjunct1, rule_format, OF conjI[OF l3 m3]] w3 by simp
  have u2: "gralloc_drm_bo_unlock android_consts twice_locked_state 4 =
     Inr (twice_locked_state\<lparr>bos := (bos twice_locked_state)(4 \<mapsto>
            local_bo\<lparr>lock_count := 1, locked_for := 0x3\<rparr>),
          calls := calls twice_locked_state @ [Unmap 4]\<rparr>)"
    using T[OF four live2 e, THEN conjunct2, THEN conjunct2, THEN conjunct1]
    by (simp add: small android_consts_def sw_mask_def)
  have u1: "gralloc_drm_bo_unlock android_consts locked_state 4 =
     Inr (locked_state\<lparr>bos := (bos locked_state)(4 \<mapsto>
            local_bo\<lparr>lock_count := 0, locked_for := 0\<rparr>),
          calls := calls locked_state @ [Unmap 4]\<rparr>)"
    using T[OF four live1 e, THEN conjunct2, THEN conjunct2, THEN conjunct1]
    by (simp add: small android_consts_def sw_mask_def)
  have uh: "gralloc_drm_bo_unlock android_consts
       (local_state\<lparr>bos := [4 \<mapsto> local_bo\<lparr>lock_count := 2, locked_for := 0x100\<rparr>]\<rparr>) 4 =
     Inr (local_state\<lparr>bos := [4 \<mapsto> local_bo\<lparr>lock_count := 1, locked_for := 0x100\<rparr>]\<rparr>)"
    using T[OF four liveh e, THEN conjunct2, THEN conjunct2, THEN conjunct2, THEN conjunct1]
    by (simp add: small android_consts_def sw_mask_def)
  have u0: "gralloc_drm_bo_unlock android_consts local_state 4 = Inr local_state"
    using T[OF four live e, THEN conjunct2, THEN conjunct2, THEN conjunct2, THEN conjunct2]
    by (simp add: small)
  show ?thesis using l1 m1 c1 l2 m2 c2 l3 c3 u2 u1 uh u0 by simp
qed

text \<open>
  C4, as stated, fails: the exception mask of \<open>gralloc_drm_bo_lock\<close> also holds
  \<open>GRALLOC_USAGE_SW_READ_OFTEN\<close>.  A handle declared \<open>SW_READ_OFTEN\<close> alone has none of
  the display, texture or encoder flags, the requested \<open>SW_WRITE_OFTEN\<close> is not contained
  in it, the object is unlocked and the backend maps; the claim's case (1) says the lock
  fails, and the lock succeeds.
\<close>

theorem lock_exception_flags_counterexample:
  "handles readable_state 3 = Some (local_handle\<lparr>usage := 0x3\<rparr>) \<and>
   bos readable_state 4 = Some local_bo \<and> handle local_bo = 3 \<and> lock_count local_bo = 0 \<and>
   usage (local_handle\<lparr>usage := 0x3\<rparr>) AND 0x30 \<noteq> 0x30 \<and>
   usage (local_handle\<lparr>usage := 0x3\<rparr>) AND
     (GRALLOC_USAGE_HW_FB android_consts OR GRALLOC_USAGE_HW_TEXTURE android_consts OR
      GRALLOC_USAGE_HW_VIDEO_ENCODER android_consts) = 0 \<and>
   gralloc_drm_bo_lock android_consts readable_state 4 0x30 0 0 64 64 =
     Inr (0, Some 4096,
          readable_state\<lparr>bos := [4 \<mapsto> local_bo\<lparr>lock_count := 1, locked_for := 0x30\<rparr>],
                         calls := [Alloc 3 4, Map 4 0 0 64 64 1]\<rparr>)"
  by (simp add: example_defs operation_defs)

text \<open>
  C4, amended.  For a live object with a live handle and context (and \<open>EINVAL\<close> not 0),
  \<open>gralloc_drm_bo_lock\<close> fails exactly in these cases, and in each of them no object
  changes, so \<open>lock_count\<close> and \<open>locked_for\<close> are as before: (1) \<open>-EINVAL\<close> when the
  requested usage is not contained in the handle's usage and the handle's usage has none of
  \<open>SW_READ_OFTEN\<close>, \<open>HW_FB\<close>, \<open>HW_TEXTURE\<close>, \<open>HW_VIDEO_ENCODER\<close>; (2) \<open>-EINVAL\<close> when
  \<open>lock_count\<close> is not 0 and the requested bits are not a subset of \<open>locked_for\<close>;
  (3) otherwise, the backend's error when the usage union has a CPU read/write bit and
  \<open>map\<close> returns non-zero.  In every other case the lock returns 0, increments
  \<open>lock_count\<close> and ORs the usage into \<open>locked_for\<close>.
\<close>

theorem lock_failure_cases:
  assumes "b \<noteq> 0" "bos s b = Some bo" "handle bo \<noteq> 0" "handles s (handle bo) = Some hnd"
    "drm bo \<noteq> 0" "drms s (drm bo) = Some d" "EINVAL K \<noteq> 0"
  shows
   "(usage hnd AND u \<noteq> u \<and>
     usage hnd AND (GRALLOC_USAGE_SW_READ_OFTEN K OR GRALLOC_USAGE_HW_FB K OR
                    GRALLOC_USAGE_HW_TEXTURE K OR GRALLOC_USAGE_HW_VIDEO_ENCODER K) = 0 \<longrightarrow>
       gralloc_drm_bo_lock K s b u x y w h = Inr (- EINVAL K, None, s)) \<and>
    (lock_count bo \<noteq> 0 \<and> locked_for bo AND u \<noteq> u \<longrightarrow>
       gralloc_drm_bo_lock K s b u x y w h = Inr (- EINVAL K, None, s)) \<and>
    (\<not> (usage hnd AND u \<noteq> u \<and>
        usage hnd AND (GRALLOC_USAGE_SW_READ_OFTEN K OR GRALLOC_USAGE_HW_FB K OR
                       GRALLOC_USAGE_HW_TEXTURE K OR GRALLOC_USAGE_HW_VIDEO_ENCODER K) = 0) \<and>
     \<not> (lock_count bo \<noteq> 0 \<and> locked_for bo AND u \<noteq> u) \<longrightarrow>
       (let write = (if (u OR locked_for bo) AND GRALLOC_USAGE_SW_WRITE_MASK K \<noteq> 0 then 1 else 0);
            r = drv_map (drv d) bo x y w h write
        in ((u OR locked_for bo) AND sw_mask K \<noteq> 0 \<and> fst r \<noteq> 0 \<longrightarrow>
              gralloc_drm_bo_lock K s b u x y w h =
                Inr (fst r, Some (snd r), s\<lparr>calls := calls s @ [Map b x y w h write]\<rparr>)) \<and>
           (\<not> ((u OR locked_for bo) AND sw_mask K \<noteq> 0 \<and> fst r \<noteq> 0) \<longrightarrow>
              (\<exists>a s'. gralloc_drm_bo_lock K s b u x y w h = Inr (0, a, s') \<and>
                 bos s' = (bos s)(b \<mapsto> bo\<lparr>lock_count := lock_count bo + 1,
                                            locked_for := locked_for bo OR u\<rparr>)))))"
proof -
  have e: "locked_for bo OR (u OR locked_for bo) = locked_for bo OR u"
    by (simp add: or.commute or.left_commute)
  show ?thesis
    using lock_char[OF assms(1-6), of K u x y w h] assms(7)
    by (auto simp: Let_def e split: if_splits)
qed

theorem lock_failure_cases_witness:
  "gralloc_drm_bo_lock android_consts render_state 4 0x30 0 0 64 64 =
     Inr (- EINVAL android_consts, None, render_state) \<and>
   gralloc_drm_bo_lock android_consts locked_state 4 0x30 0 0 64 64 =
     Inr (- EINVAL android_consts, None, locked_state) \<and>
   gralloc_drm_bo_lock android_consts unmappable_state 4 0x3 0 0 64 64 =
     Inr (- 5, Some 0, unmappable_state\<lparr>calls := calls unmappable_state @ [Map 4 0 0 64 64 0]\<rparr>) \<and>
   (\<exists>a s'. gralloc_drm_bo_lock android_consts local_state 4 0x3 0 0 64 64 = Inr (0, a, s') \<and>
      bos s' = (bos local_state)(4 \<mapsto> local_bo\<lparr>lock_count := lock_count local_bo + 1,
                                             locked_for := locked_for local_bo OR 0x3\<rparr>))"
proof -
  have four: "(4::nat) \<noteq> 0" by simp
  have e: "EINVAL android_consts \<noteq> 0" by (simp add: android_consts_def)
  have r: "bos render_state 4 = Some local_bo" "handle local_bo \<noteq> 0"
    "handles render_state (handle local_bo) = Some (local_handle\<lparr>usage := 0x200\<rparr>)"
    "drm local_bo \<noteq> 0" "drms render_state (drm local_bo) = Some \<lparr>fd = 3, drv = test_drv\<rparr>"
    by (simp_all add: example_defs)
  have l: "bos locked_state 4 = Some (local_bo\<lparr>lock_count := 1, locked_for := 0x3\<rparr>)"
    "handle (local_bo\<lparr>lock_count := 1, locked_for := 0x3\<rparr>) \<noteq> 0"
    "handles locked_state (handle (local_bo\<lparr>lock_count := 1, locked_for := 0x3\<rparr>)) =
       Some local_handle"
    "drm (local_bo\<lparr>lock_count := 1, locked_for := 0x3\<rparr>) \<noteq> 0"
    "drms locked_state (drm (local_bo\<lparr>lock_count := 1, locked_for := 0x3\<rparr>)) =
       Some \<lparr>fd = 3, drv = test_drv\<rparr>"
    by (simp_all add: example_defs)
  have u: "bos unmappable_state 4 = Some (local_bo\<lparr>drm := 2\<rparr>)"
    "handle (local_bo\<lparr>drm := 2\<rparr>) \<noteq> 0"
    "handles unmappable_state (handle (local_bo\<lparr>drm := 2\<rparr>)) = Some local_handle"
    "drm (local_bo\<lparr>drm := 2\<rparr>) \<noteq> 0"
    "drms unmappable_state (drm (local_bo\<lparr>drm := 2\<rparr>)) = Some \<lparr>fd = 4, drv = failing_drv\<rparr>"
    by (simp_all add: example_defs)
  have s: "bos local_state 4 = Some local_bo"
    "handles local_state (handle local_bo) = Some local_handle"
    "drms local_state (drm local_bo) = Some \<lparr>fd = 3, drv = test_drv\<rparr>"
    by (simp_all add: example_defs)
  note small = android_consts_def local_handle_def local_bo_def calloc_bo_def test_drv_def
    failing_drv_def sw_mask_def Let_def
  have A: "gralloc_drm_bo_lock android_consts render_state 4 0x30 0 0 64 64 =
     Inr (- EINVAL android_consts, None, render_state)"
    using lock_failure_cases[OF four r e, where u = "0x30" and x = 0 and y = 0 and w = 64
        and h = 64]
    by (simp add: small)
  have B: "gralloc_drm_bo_lock android_consts locked_state 4 0x30 0 0 64 64 =
     Inr (- EINVAL android_consts, None, locked_state)"
    using lock_failure_cases[OF four l e, where u = "0x30" and x = 0 and y = 0 and w = 64
        and h = 64]
    by (simp add: small)
  have C: "gralloc_drm_bo_lock android_consts unmappable_state 4 0x3 0 0 64 64 =
     Inr (- 5, Some 0, unmappable_state\<lparr>calls := calls unmappable_state @ [Map 4 0 0 64 64 0]\<rparr>)"
    using lock_failure_cases[OF four u e, where u = "0x3" and x = 0 and y = 0 and w = 64
        and h = 64]
    by (simp add: small)
  have D: "\<exists>a s'. gralloc_drm_bo_lock android_consts local_state 4 0x3 0 0 64 64 = Inr (0, a, s') \<and>
      bos s' = (bos local_state)(4 \<mapsto> local_bo\<lparr>lock_count := lock_count local_bo + 1,
                                             locked_for := locked_for local_bo OR 0x3\<rparr>)"
    using lock_failure_cases[OF four s(1) r(2) s(2) r(4) s(3) e, where u = "0x3" and x = 0
        and y = 0 and w = 64 and h = 64]
    by (simp add: small)
  show ?thesis using A B C D by simp
qed

text \<open>
  C6.  \<open>gralloc_drm_bo_decref\<close> on a live object decrements \<open>refcount\<close> by one.  When the
  result is not zero nothing else happens.  Exactly when the result is zero it performs
  the whole destruction before returning: the framebuffer binding is removed, then the
  backend's \<open>free\<close> is called and the object is gone, and then the handle is reset
  (\<open>data_owner\<close> and \<open>data\<close> zeroed) for an imported object and freed for a locally
  created one.  \<open>gralloc_drm_bo_destroy\<close> on an object whose \<open>refcount\<close> is not zero
  changes nothing.  Consequently, for all width, height, format and usage, whenever
  \<open>gralloc_drm_bo_create\<close> returns an object, \<open>gralloc_drm_bo_decref\<close> right after it
  succeeds and leaves the objects that were live before the creation and no other: the
  one backend \<open>alloc\<close> is matched by one backend \<open>free\<close>, and the new handle is freed.
\<close>

theorem decref_destroys_at_zero:
   "(b \<noteq> 0 \<and> bos s b = Some bo \<and> refcount bo - 1 \<noteq> 0 \<longrightarrow>
       gralloc_drm_bo_decref s b =
         Inr (s\<lparr>bos := (bos s)(b \<mapsto> bo\<lparr>refcount := refcount bo - 1\<rparr>)\<rparr>)) \<and>
    (b \<noteq> 0 \<and> bos s b = Some bo \<and> refcount bo - 1 = 0 \<and>
     drm bo \<noteq> 0 \<and> drms s (drm bo) = Some d \<and>
     handle bo \<noteq> 0 \<and> handles s (handle bo) = Some hnd \<longrightarrow>
       gralloc_drm_bo_decref s b =
         Inr (s\<lparr>bos := (bos s)(b := None),
                handles := (if imported bo \<noteq> 0
                            then (handles s)(handle bo \<mapsto> hnd\<lparr>data_owner := 0, data := 0\<rparr>)
                            else (handles s)(handle bo := None)),
                calls := calls s @ (if fb_id bo \<noteq> 0 then [RmFB b (fb_id bo)] else []) @
                           [Free b]\<rparr>)) \<and>
    (b \<noteq> 0 \<and> bos s b = Some bo \<and> refcount bo \<noteq> 0 \<longrightarrow> gralloc_drm_bo_destroy s b = Inr s) \<and>
    (gralloc_drm_bo_create K s dp w h f u = Inr (b', s1) \<and> b' \<noteq> 0 \<longrightarrow>
       (\<exists>s2. gralloc_drm_bo_decref s1 b' = Inr s2 \<and>
             bos s2 = (bos s)(b' := None) \<and>
             handles s2 = (handles s)(Suc (next_ptr s) := None) \<and>
             calls s2 = calls s @ [Alloc (Suc (next_ptr s)) b', Free b']))"
proof -
  have one: "refcount bo - 1 = 0 \<longleftrightarrow> refcount bo = 1" by auto
  have 1: "b \<noteq> 0 \<and> bos s b = Some bo \<and> refcount bo - 1 \<noteq> 0 \<longrightarrow>
       gralloc_drm_bo_decref s b =
         Inr (s\<lparr>bos := (bos s)(b \<mapsto> bo\<lparr>refcount := refcount bo - 1\<rparr>)\<rparr>)"
    using decref_char[of b s bo] by (simp add: one)
  have 2: "b \<noteq> 0 \<and> bos s b = Some bo \<and> refcount bo - 1 = 0 \<and>
     drm bo \<noteq> 0 \<and> drms s (drm bo) = Some d \<and>
     handle bo \<noteq> 0 \<and> handles s (handle bo) = Some hnd \<longrightarrow>
       gralloc_drm_bo_decref s b =
         Inr (s\<lparr>bos := (bos s)(b := None),
                handles := (if imported bo \<noteq> 0
                            then (handles s)(handle bo \<mapsto> hnd\<lparr>data_owner := 0, data := 0\<rparr>)
                            else (handles s)(handle bo := None)),
                calls := calls s @ (if fb_id bo \<noteq> 0 then [RmFB b (fb_id bo)] else []) @
                           [Free b]\<rparr>)"
  proof (intro impI, elim conjE)
    assume a: "b \<noteq> 0" "bos s b = Some bo" "refcount bo - 1 = 0" "drm bo \<noteq> 0"
      "drms s (drm bo) = Some d" "handle bo \<noteq> 0" "handles s (handle bo) = Some hnd"
    let ?t = "s\<lparr>bos := (bos s)(b \<mapsto> bo\<lparr>refcount := 0\<rparr>)\<rparr>"
    have dc: "gralloc_drm_bo_decref s b = gralloc_drm_bo_destroy ?t b"
      using decref_char[OF a(1,2)] a(3) by (simp add: one)
    have "gralloc_drm_bo_destroy ?t b =
       Inr (?t\<lparr>bos := (bos ?t)(b := None),
              handles := (if imported (bo\<lparr>refcount := 0\<rparr>) \<noteq> 0
                          then (handles ?t)(handle (bo\<lparr>refcount := 0\<rparr>) \<mapsto>
                                 hnd\<lparr>data_owner := 0, data := 0\<rparr>)
                          else (handles ?t)(handle (bo\<lparr>refcount := 0\<rparr>) := None)),
              calls := calls ?t @
                 (if fb_id (bo\<lparr>refcount := 0\<rparr>) \<noteq> 0
                  then [RmFB b (fb_id (bo\<lparr>refcount := 0\<rparr>))] else []) @ [Free b]\<rparr>)"
      by (rule destroy_char[where d = d]) (simp_all add: a)
    then show "gralloc_drm_bo_decref s b =
         Inr (s\<lparr>bos := (bos s)(b := None),
                handles := (if imported bo \<noteq> 0
                            then (handles s)(handle bo \<mapsto> hnd\<lparr>data_owner := 0, data := 0\<rparr>)
                            else (handles s)(handle bo := None)),
                calls := calls s @ (if fb_id bo \<noteq> 0 then [RmFB b (fb_id bo)] else []) @
                           [Free b]\<rparr>)"
      unfolding dc by simp
  qed
  have 3: "b \<noteq> 0 \<and> bos s b = Some bo \<and> refcount bo \<noteq> 0 \<longrightarrow> gralloc_drm_bo_destroy s b = Inr s"
    by (simp add: gralloc_drm_bo_destroy_def deref_def Let_def)
  have 4: "gralloc_drm_bo_create K s dp w h f u = Inr (b', s1) \<and> b' \<noteq> 0 \<longrightarrow>
       (\<exists>s2. gralloc_drm_bo_decref s1 b' = Inr s2 \<and>
             bos s2 = (bos s)(b' := None) \<and>
             handles s2 = (handles s)(Suc (next_ptr s) := None) \<and>
             calls s2 = calls s @ [Alloc (Suc (next_ptr s)) b', Free b'])"
    using create_then_decref[of K s dp w h f u b' s1] by blast
  show ?thesis using 1 2 3 4 by blast
qed

theorem decref_destroys_at_zero_witness:
  "gralloc_drm_bo_decref (imported_state 2) 4 =
     Inr ((imported_state 2)\<lparr>bos := (bos (imported_state 2))(4 \<mapsto>
            (imported_bo 2)\<lparr>refcount := refcount (imported_bo 2) - 1\<rparr>)\<rparr>) \<and>
   refcount (imported_bo 2) - 1 = 1 \<and>
   gralloc_drm_bo_decref local_state 4 =
     Inr (local_state\<lparr>bos := (bos local_state)(4 := None),
            handles := (handles local_state)(3 := None),
            calls := calls local_state @ [Free 4]\<rparr>) \<and>
   gralloc_drm_bo_decref (imported_state 1) 4 =
     Inr ((imported_state 1)\<lparr>bos := (bos (imported_state 1))(4 := None),
            handles := (handles (imported_state 1))(3 \<mapsto>
               remote_handle\<lparr>data_owner := 0, data := 0\<rparr>),
            calls := calls (imported_state 1) @ [Free 4]\<rparr>) \<and>
   gralloc_drm_bo_destroy local_state 4 = Inr local_state \<and>
   gralloc_drm_bo_create android_consts init_state 1 64 64 1 0x133 = Inr (4, local_state) \<and>
   (\<exists>s2. gralloc_drm_bo_decref local_state 4 = Inr s2 \<and>
         bos s2 = (bos init_state)(4 := None) \<and>
         handles s2 = (handles init_state)(Suc (next_ptr init_state) := None) \<and>
         calls s2 = calls init_state @ [Alloc (Suc (next_ptr init_state)) 4, Free 4])"
proof -
  have four: "(4::nat) \<noteq> 0" by simp
  have i2: "bos (imported_state 2) 4 = Some (imported_bo 2)" "refcount (imported_bo 2) - 1 \<noteq> 0"
    "refcount (imported_bo 2) - 1 = 1"
    by (simp_all add: example_defs)
  have l: "bos local_state 4 = Some local_bo" "refcount local_bo - 1 = 0" "drm local_bo \<noteq> 0"
    "drms local_state (drm local_bo) = Some \<lparr>fd = 3, drv = test_drv\<rparr>" "handle local_bo \<noteq> 0"
    "handles local_state (handle local_bo) = Some local_handle" "refcount local_bo \<noteq> 0"
    "imported local_bo = 0" "fb_id local_bo = 0" "handle local_bo = 3"
    by (simp_all add: example_defs)
  have i1: "bos (imported_state 1) 4 = Some (imported_bo 1)" "refcount (imported_bo 1) - 1 = 0"
    "drm (imported_bo 1) \<noteq> 0"
    "drms (imported_state 1) (drm (imported_bo 1)) = Some \<lparr>fd = 3, drv = test_drv\<rparr>"
    "handle (imported_bo 1) \<noteq> 0"
    "handles (imported_state 1) (handle (imported_bo 1)) =
       Some (remote_handle\<lparr>data_owner := 100, data := 4\<rparr>)"
    "imported (imported_bo 1) \<noteq> 0" "fb_id (imported_bo 1) = 0" "handle (imported_bo 1) = 3"
    by (simp_all add: example_defs)
  have c: "gralloc_drm_bo_create android_consts init_state 1 64 64 1 0x133 = Inr (4, local_state)"
    by (simp add: example_defs operation_defs)
  note T = decref_destroys_at_zero
  have A: "gralloc_drm_bo_decref (imported_state 2) 4 =
     Inr ((imported_state 2)\<lparr>bos := (bos (imported_state 2))(4 \<mapsto>
            (imported_bo 2)\<lparr>refcount := refcount (imported_bo 2) - 1\<rparr>)\<rparr>)"
    using T[where b = 4 and s = "imported_state 2" and bo = "imported_bo 2", THEN conjunct1]
      i2 by simp
  have B: "gralloc_drm_bo_decref local_state 4 =
     Inr (local_state\<lparr>bos := (bos local_state)(4 := None),
            handles := (handles local_state)(3 := None),
            calls := calls local_state @ [Free 4]\<rparr>)"
    using T[where b = 4 and s = local_state and bo = local_bo and hnd = local_handle
        and d = "\<lparr>fd = 3, drv = test_drv\<rparr>", THEN conjunct2, THEN conjunct1] l
    by simp
  have C: "gralloc_drm_bo_decref (imported_state 1) 4 =
     Inr ((imported_state 1)\<lparr>bos := (bos (imported_state 1))(4 := None),
            handles := (handles (imported_state 1))(3 \<mapsto>
               remote_handle\<lparr>data_owner := 0, data := 0\<rparr>),
            calls := calls (imported_state 1) @ [Free 4]\<rparr>)"
    using T[where b = 4 and s = "imported_state 1" and bo = "imported_bo 1"
        and hnd = "remote_handle\<lparr>data_owner := 100, data := 4\<rparr>"
        and d = "\<lparr>fd = 3, drv = test_drv\<rparr>", THEN conjunct2, THEN conjunct1] i1
    by simp
  have D: "gralloc_drm_bo_destroy local_state 4 = Inr local_state"
    using T[where b = 4 and s = local_state and bo = local_bo,
        THEN conjunct2, THEN conjunct2, THEN conjunct1] l by simp
  have E: "\<exists>s2. gralloc_drm_bo_decref local_state 4 = Inr s2 \<and>
         bos s2 = (bos init_state)(4 := None) \<and>
         handles s2 = (handles init_state)(Suc (next_ptr init_state) := None) \<and>
         calls s2 = calls init_state @ [Alloc (Suc (next_ptr init_state)) 4, Free 4]"
    using T[where K = android_consts and s = init_state and dp = 1 and w = 64 and h = 64
        and f = 1 and u = "0x133" and b' = 4 and ?s1.0 = local_state,
        THEN conjunct2, THEN conjunct2, THEN conjunct2] c by simp
  show ?thesis using A B C D E c i2(3) by simp
qed

text \<open>
  C1.  The claim: for every handle for which lookup-only validation finds an object,
  \<open>gralloc_drm_handle_unregister\<close> decrements \<open>refcount\<close> once and, if the object is
  marked imported, a second time.  The code reads \<open>bo->imported\<close> after the first
  \<open>gralloc_drm_bo_decref\<close>, where \<open>gralloc_drm_bo_destroy\<close> takes its copy of
  \<open>bo->imported\<close> before the backend's \<open>free\<close>.  When the object's \<open>refcount\<close> is 1 the
  first decrement destroys the object and the read is of released storage.  Evaluated:
  the locally created object right after \<open>gralloc_drm_bo_create\<close> (not imported, so one
  decrement is all the claim asks for), and an imported handle registered twice and then
  unregistered twice, whose second unregister starts from \<open>refcount\<close> 1.
\<close>

theorem unregister_reads_released_object:
  "gralloc_drm_bo_create android_consts init_state 1 64 64 1 0x133 = Inr (4, local_state) \<and>
   validate_handle android_consts local_state 3 0 = Inr (4, local_state) \<and>
   imported local_bo = 0 \<and>
   gralloc_drm_bo_decref local_state 4 =
     Inr (local_state\<lparr>handles := Map.empty, bos := Map.empty, calls := [Alloc 3 4, Free 4]\<rparr>) \<and>
   gralloc_drm_handle_unregister android_consts local_state 3 = Inl DanglingDeref \<and>
   repeat_call (\<lambda>s. gralloc_drm_handle_register android_consts s 3 1) (Suc (Suc 0)) remote_state =
     Inr ([0, 0], imported_state 3) \<and>
   repeat_call (\<lambda>s. gralloc_drm_handle_unregister android_consts s 3) (Suc (Suc 0))
     (imported_state 3) = Inl DanglingDeref"
  by (simp add: example_defs operation_defs)

text \<open>
  C2, as stated, fails in both halves.  A locally created object with \<open>refcount\<close> 2 is
  registered once and unregistered once, which brings it back to 2; one unregister more
  returns 0, not \<open>-EINVAL\<close>, and leaves \<open>refcount\<close> 1.  An imported object with
  \<open>refcount\<close> 2 is registered once and unregistered once, and ends with \<open>refcount\<close> 1,
  not 2: every unregister of an imported object releases two references.
\<close>

theorem register_unregister_counterexample:
  "gralloc_drm_handle_register android_consts registered_state 3 1 =
     Inr (0, local_state\<lparr>bos := [4 \<mapsto> local_bo\<lparr>refcount := 3\<rparr>]\<rparr>) \<and>
   gralloc_drm_handle_unregister android_consts
     (local_state\<lparr>bos := [4 \<mapsto> local_bo\<lparr>refcount := 3\<rparr>]\<rparr>) 3 = Inr (0, registered_state) \<and>
   gralloc_drm_handle_unregister android_consts registered_state 3 = Inr (0, local_state) \<and>
   (0 :: cint) \<noteq> - EINVAL android_consts \<and>
   bos (imported_state 2) 4 = Some (imported_bo 2) \<and>
   gralloc_drm_handle_register android_consts (imported_state 2) 3 1 =
     Inr (0, imported_state 3) \<and>
   gralloc_drm_handle_unregister android_consts (imported_state 3) 3 =
     Inr (0, imported_state 1) \<and>
   bos (imported_state 1) 4 = Some (imported_bo 1) \<and>
   refcount (imported_bo 1) \<noteq> refcount (imported_bo 2)"
  by (simp add: example_defs operation_defs)

text \<open>
  C2, amended.  For every handle whose cached object is locally created (not imported),
  with \<open>refcount\<close> \<open>r\<close> not 0, and every \<open>N \<ge> 1\<close> with \<open>r + N\<close> below \<open>2^32\<close>: registering
  it \<open>N\<close> times returns 0 each time and brings \<open>refcount\<close> to \<open>r + N\<close>, and unregistering
  it \<open>N\<close> times then returns 0 each time and brings \<open>refcount\<close>, and the whole state,
  back.  \<open>gralloc_drm_handle_unregister\<close> returns \<open>-EINVAL\<close> when lookup-only validation
  finds no object, and then changes no handle, no object and makes no backend call.
  While an object is cached, unregister is not an error whatever the number of earlier
  registrations: with \<open>refcount\<close> other than 1 it returns 0 and releases one reference
  of a locally created object, and two references of an imported one; an imported object
  with \<open>refcount\<close> 2 is destroyed by it, and the next unregister returns \<open>-EINVAL\<close>.
\<close>

theorem register_unregister_balance:
  "(validate_handle K s p 0 = Inr (b, s') \<and> b \<noteq> 0 \<and> bos s b = Some bo \<and> imported bo = 0 \<and>
    refcount bo \<noteq> 0 \<and> unat (refcount bo) + N < 2 ^ 32 \<and> 1 \<le> N \<longrightarrow>
      (\<exists>t. repeat_call (\<lambda>u. gralloc_drm_handle_register K u p dp) N s = Inr (replicate N 0, t) \<and>
           bos t b = Some (bo\<lparr>refcount := refcount bo + of_nat N\<rparr>) \<and>
           repeat_call (\<lambda>u. gralloc_drm_handle_unregister K u p) N t = Inr (replicate N 0, s') \<and>
           bos s' b = Some bo)) \<and>
   (validate_handle K s p 0 = Inr (0, s') \<longrightarrow>
      gralloc_drm_handle_unregister K s p = Inr (- EINVAL K, s') \<and>
      handles s' = handles s \<and> bos s' = bos s \<and> calls s' = calls s) \<and>
   (validate_handle K s p 0 = Inr (b, s') \<and> b \<noteq> 0 \<and> bos s b = Some bo \<and>
    refcount bo \<noteq> 1 \<and> imported bo = 0 \<longrightarrow>
      gralloc_drm_handle_unregister K s p =
        Inr (0, s'\<lparr>bos := (bos s)(b \<mapsto> bo\<lparr>refcount := refcount bo - 1\<rparr>)\<rparr>)) \<and>
   (validate_handle K s p 0 = Inr (b, s') \<and> b \<noteq> 0 \<and> bos s b = Some bo \<and>
    refcount bo \<noteq> 1 \<and> refcount bo \<noteq> 2 \<and> imported bo \<noteq> 0 \<longrightarrow>
      gralloc_drm_handle_unregister K s p =
        Inr (0, s'\<lparr>bos := (bos s)(b \<mapsto> bo\<lparr>refcount := refcount bo - 2\<rparr>)\<rparr>)) \<and>
   (validate_handle K s p 0 = Inr (b, s') \<and> b \<noteq> 0 \<and> bos s b = Some bo \<and>
    refcount bo = 2 \<and> imported bo \<noteq> 0 \<and> handle bo = p \<and> drm bo \<noteq> 0 \<and>
    drms s (drm bo) = Some d \<longrightarrow>
      (\<exists>t. gralloc_drm_handle_unregister K s p = Inr (0, t) \<and> bos t = (bos s)(b := None) \<and>
           (\<exists>t'. gralloc_drm_handle_unregister K t p = Inr (- EINVAL K, t') \<and>
                 bos t' = bos t \<and> handles t' = handles t \<and> calls t' = calls t)))"
proof (intro conjI impI)
  assume a: "validate_handle K s p 0 = Inr (b, s') \<and> b \<noteq> 0 \<and> bos s b = Some bo \<and>
    imported bo = 0 \<and> refcount bo \<noteq> 0 \<and> unat (refcount bo) + N < 2 ^ 32 \<and> 1 \<le> N"
  then show "\<exists>t. repeat_call (\<lambda>u. gralloc_drm_handle_register K u p dp) N s = Inr (replicate N 0, t) \<and>
           bos t b = Some (bo\<lparr>refcount := refcount bo + of_nat N\<rparr>) \<and>
           repeat_call (\<lambda>u. gralloc_drm_handle_unregister K u p) N t = Inr (replicate N 0, s') \<and>
           bos s' b = Some bo"
    using roundtrip_local[of K s p b s' bo N dp] by blast
next
  assume a: "validate_handle K s p 0 = Inr (0, s')"
  show "gralloc_drm_handle_unregister K s p = Inr (- EINVAL K, s')"
    using unregister_not_found[OF a] .
  show "handles s' = handles s" "bos s' = bos s" "calls s' = calls s"
    using validate_lookup_frame[OF a] by simp_all
next
  assume a: "validate_handle K s p 0 = Inr (b, s') \<and> b \<noteq> 0 \<and> bos s b = Some bo \<and>
    refcount bo \<noteq> 1 \<and> imported bo = 0"
  then show "gralloc_drm_handle_unregister K s p =
        Inr (0, s'\<lparr>bos := (bos s)(b \<mapsto> bo\<lparr>refcount := refcount bo - 1\<rparr>)\<rparr>)"
    using unregister_found[of K s p b s' bo] by simp
next
  assume a: "validate_handle K s p 0 = Inr (b, s') \<and> b \<noteq> 0 \<and> bos s b = Some bo \<and>
    refcount bo \<noteq> 1 \<and> refcount bo \<noteq> 2 \<and> imported bo \<noteq> 0"
  then show "gralloc_drm_handle_unregister K s p =
        Inr (0, s'\<lparr>bos := (bos s)(b \<mapsto> bo\<lparr>refcount := refcount bo - 2\<rparr>)\<rparr>)"
    using unregister_found[of K s p b s' bo] by simp
next
  assume a: "validate_handle K s p 0 = Inr (b, s') \<and> b \<noteq> 0 \<and> bos s b = Some bo \<and>
    refcount bo = 2 \<and> imported bo \<noteq> 0 \<and> handle bo = p \<and> drm bo \<noteq> 0 \<and>
    drms s (drm bo) = Some d"
  then show "\<exists>t. gralloc_drm_handle_unregister K s p = Inr (0, t) \<and> bos t = (bos s)(b := None) \<and>
           (\<exists>t'. gralloc_drm_handle_unregister K t p = Inr (- EINVAL K, t') \<and>
                 bos t' = bos t \<and> handles t' = handles t \<and> calls t' = calls t)"
    using unregister_imported_last[of K s p b s' bo d] by blast
qed

theorem register_unregister_balance_witness:
  "validate_handle android_consts local_state 3 0 = Inr (4, local_state) \<and>
   bos local_state 4 = Some local_bo \<and> imported local_bo = 0 \<and> refcount local_bo = 1 \<and>
   (\<exists>t. repeat_call (\<lambda>u. gralloc_drm_handle_register android_consts u 3 1) 2 local_state =
           Inr (replicate 2 0, t) \<and>
        bos t 4 = Some (local_bo\<lparr>refcount := refcount local_bo + of_nat 2\<rparr>) \<and>
        repeat_call (\<lambda>u. gralloc_drm_handle_unregister android_consts u 3) 2 t =
           Inr (replicate 2 0, local_state) \<and>
        bos local_state 4 = Some local_bo) \<and>
   validate_handle android_consts remote_state 3 0 =
     Inr (0, remote_state\<lparr>gralloc_drm_pid := 100\<rparr>) \<and>
   gralloc_drm_handle_unregister android_consts remote_state 3 =
     Inr (- EINVAL android_consts, remote_state\<lparr>gralloc_drm_pid := 100\<rparr>) \<and>
   validate_handle android_consts registered_state 3 0 = Inr (4, registered_state) \<and>
   gralloc_drm_handle_unregister android_consts registered_state 3 =
     Inr (0, registered_state\<lparr>bos := (bos registered_state)(4 \<mapsto>
            (local_bo\<lparr>refcount := 2\<rparr>)\<lparr>refcount := refcount (local_bo\<lparr>refcount := 2\<rparr>) - 1\<rparr>)\<rparr>) \<and>
   validate_handle android_consts (imported_state 3) 3 0 = Inr (4, imported_state 3) \<and>
   gralloc_drm_handle_unregister android_consts (imported_state 3) 3 =
     Inr (0, (imported_state 3)\<lparr>bos := (bos (imported_state 3))(4 \<mapsto>
            (imported_bo 3)\<lparr>refcount := refcount (imported_bo 3) - 2\<rparr>)\<rparr>) \<and>
   validate_handle android_consts (imported_state 2) 3 0 = Inr (4, imported_state 2) \<and>
   (\<exists>t. gralloc_drm_handle_unregister android_consts (imported_state 2) 3 = Inr (0, t) \<and>
        bos t = (bos (imported_state 2))(4 := None) \<and>
        (\<exists>t'. gralloc_drm_handle_unregister android_consts t 3 = Inr (- EINVAL android_consts, t') \<and>
              bos t' = bos t \<and> handles t' = handles t \<and> calls t' = calls t))"
proof -
  note T = register_unregister_balance
  have vl: "validate_handle android_consts local_state 3 0 = Inr (4, local_state)"
    by (simp add: example_defs operation_defs)
  have l: "bos local_state 4 = Some local_bo" "imported local_bo = 0" "refcount local_bo = 1"
    "refcount local_bo \<noteq> 0" "unat (refcount local_bo) + 2 < 2 ^ 32"
    by (simp_all add: example_defs)
  have A: "\<exists>t. repeat_call (\<lambda>u. gralloc_drm_handle_register android_consts u 3 1) 2 local_state =
           Inr (replicate 2 0, t) \<and>
        bos t 4 = Some (local_bo\<lparr>refcount := refcount local_bo + of_nat 2\<rparr>) \<and>
        repeat_call (\<lambda>u. gralloc_drm_handle_unregister android_consts u 3) 2 t =
           Inr (replicate 2 0, local_state) \<and>
        bos local_state 4 = Some local_bo"
    using T[where K = android_consts and s = local_state and p = 3 and b = 4
        and s' = local_state and bo = local_bo and N = 2 and dp = 1, THEN conjunct1]
      vl l(1,2,4,5) by simp
  have vr: "validate_handle android_consts remote_state 3 0 =
     Inr (0, remote_state\<lparr>gralloc_drm_pid := 100\<rparr>)"
    by (simp add: example_defs operation_defs)
  have B: "gralloc_drm_handle_unregister android_consts remote_state 3 =
     Inr (- EINVAL android_consts, remote_state\<lparr>gralloc_drm_pid := 100\<rparr>)"
    using T[where K = android_consts and s = remote_state and p = 3
        and s' = "remote_state\<lparr>gralloc_drm_pid := 100\<rparr>", THEN conjunct2, THEN conjunct1]
      vr by simp
  have vg: "validate_handle android_consts registered_state 3 0 = Inr (4, registered_state)"
    by (simp add: example_defs operation_defs)
  have g: "bos registered_state 4 = Some (local_bo\<lparr>refcount := 2\<rparr>)"
    "refcount (local_bo\<lparr>refcount := 2\<rparr>) \<noteq> 1" "imported (local_bo\<lparr>refcount := 2\<rparr>) = 0"
    by (simp_all add: example_defs)
  have C: "gralloc_drm_handle_unregister android_consts registered_state 3 =
     Inr (0, registered_state\<lparr>bos := (bos registered_state)(4 \<mapsto>
            (local_bo\<lparr>refcount := 2\<rparr>)\<lparr>refcount := refcount (local_bo\<lparr>refcount := 2\<rparr>) - 1\<rparr>)\<rparr>)"
    using T[where K = android_consts and s = registered_state and p = 3 and b = 4
        and s' = registered_state and bo = "local_bo\<lparr>refcount := 2\<rparr>",
        THEN conjunct2, THEN conjunct2, THEN conjunct1]
      vg g by simp
  have v3: "validate_handle android_consts (imported_state 3) 3 0 = Inr (4, imported_state 3)"
    by (simp add: example_defs operation_defs)
  have i3: "bos (imported_state 3) 4 = Some (imported_bo 3)"
    "refcount (imported_bo 3) \<noteq> 1" "refcount (imported_bo 3) \<noteq> 2" "imported (imported_bo 3) \<noteq> 0"
    by (simp_all add: example_defs)
  have D: "gralloc_drm_handle_unregister android_consts (imported_state 3) 3 =
     Inr (0, (imported_state 3)\<lparr>bos := (bos (imported_state 3))(4 \<mapsto>
            (imported_bo 3)\<lparr>refcount := refcount (imported_bo 3) - 2\<rparr>)\<rparr>)"
    using T[where K = android_consts and s = "imported_state 3" and p = 3 and b = 4
        and s' = "imported_state 3" and bo = "imported_bo 3",
        THEN conjunct2, THEN conjunct2, THEN conjunct2, THEN conjunct1]
      v3 i3 by simp
  have v2: "validate_handle android_consts (imported_state 2) 3 0 = Inr (4, imported_state 2)"
    by (simp add: example_defs operation_defs)
  have i2: "bos (imported_state 2) 4 = Some (imported_bo 2)"
    "refcount (imported_bo 2) = 2" "imported (imported_bo 2) \<noteq> 0" "handle (imported_bo 2) = 3"
    "drm (imported_bo 2) \<noteq> 0"
    "drms (imported_state 2) (drm (imported_bo 2)) = Some \<lparr>fd = 3, drv = test_drv\<rparr>"
    by (simp_all add: example_defs)
  have E: "\<exists>t. gralloc_drm_handle_unregister android_consts (imported_state 2) 3 = Inr (0, t) \<and>
        bos t = (bos (imported_state 2))(4 := None) \<and>
        (\<exists>t'. gralloc_drm_handle_unregister android_consts t 3 = Inr (- EINVAL android_consts, t') \<and>
              bos t' = bos t \<and> handles t' = handles t \<and> calls t' = calls t)"
    using T[where K = android_consts and s = "imported_state 2" and p = 3 and b = 4
        and s' = "imported_state 2" and bo = "imported_bo 2"
        and d = "\<lparr>fd = 3, drv = test_drv\<rparr>",
        THEN conjunct2, THEN conjunct2, THEN conjunct2, THEN conjunct2]
      v2 i2 by simp
  show ?thesis using vl l(1-3) A vr B vg C v3 D v2 E by simp
qed

end
